theory Spec2Isabelle
  imports Complex_Main
begin

section \<open>JavaScript numbers and values\<close>

text \<open>
  A JavaScript Number is an IEEE-754 binary64 value: a finite value, one of the two
  infinities, or NaN.  Finite values are carried as reals; every arithmetic operation
  rounds its exact result to the nearest binary64 value (ties to even) and overflows to
  an infinity.  The sign of zero is not modelled (no operation of the server observes it:
  the only divisors are array lengths).
\<close>

datatype jsnum = Fin real | PosInf | NegInf | NaN

text \<open>\<open>ilog2 n\<close> is the position of the highest set bit of \<open>n\<close> (0 for \<open>n < 2\<close>).\<close>

fun ilog2 :: "nat \<Rightarrow> nat" where
  "ilog2 n = (if n < 2 then 0 else Suc (ilog2 (n div 2)))"

declare ilog2.simps [simp del]

text \<open>The binary exponent of a positive real: \<open>2 ^ expo x \<le> x < 2 ^ (expo x + 1)\<close>.\<close>

definition expo :: "real \<Rightarrow> int" where
  "expo x = (if 1 \<le> x then int (ilog2 (nat \<lfloor>x\<rfloor>))
             else - int (Suc (ilog2 (nat (\<lceil>1 / x\<rceil> - 1)))))"

definition scale2 :: "int \<Rightarrow> real \<Rightarrow> real" where
  "scale2 e x = (if 0 \<le> e then x * 2 ^ nat e else x / 2 ^ nat (- e))"

definition roundeven :: "real \<Rightarrow> int" where
  "roundeven m = (let f = \<lfloor>m\<rfloor>; d = m - of_int f in
     if d < 1 / 2 then f else if 1 / 2 < d then f + 1 else if even f then f else f + 1)"

text \<open>
  Rounding to binary64: 53 significant bits, the exponent of the last bit never below
  \<open>-1074\<close> (subnormal range).
\<close>

definition rnd :: "real \<Rightarrow> real" where
  "rnd x = (if x = 0 then 0
            else let e = max (expo \<bar>x\<bar> - 52) (- 1074)
                 in scale2 e (of_int (roundeven (scale2 (- e) x))))"

definition fl :: "real \<Rightarrow> jsnum" where
  "fl x = (let r = rnd x in
           if 2 ^ 1024 \<le> r then PosInf else if r \<le> - (2 ^ 1024) then NegInf else Fin r)"

fun num_neg :: "jsnum \<Rightarrow> jsnum" where
  "num_neg (Fin x) = Fin (- x)"
| "num_neg PosInf = NegInf"
| "num_neg NegInf = PosInf"
| "num_neg NaN = NaN"

fun num_add :: "jsnum \<Rightarrow> jsnum \<Rightarrow> jsnum" where
  "num_add NaN b = NaN"
| "num_add a NaN = NaN"
| "num_add (Fin x) (Fin y) = fl (x + y)"
| "num_add PosInf NegInf = NaN"
| "num_add NegInf PosInf = NaN"
| "num_add PosInf b = PosInf"
| "num_add NegInf b = NegInf"
| "num_add (Fin x) b = b"

definition num_sub :: "jsnum \<Rightarrow> jsnum \<Rightarrow> jsnum" where
  "num_sub a b = num_add a (num_neg b)"

text \<open>Division; a zero divisor is \<open>+0\<close>.\<close>

fun num_div :: "jsnum \<Rightarrow> jsnum \<Rightarrow> jsnum" where
  "num_div NaN b = NaN"
| "num_div a NaN = NaN"
| "num_div (Fin x) (Fin y) =
     (if y = 0 then (if x = 0 then NaN else if 0 < x then PosInf else NegInf)
      else fl (x / y))"
| "num_div (Fin x) b = Fin 0"
| "num_div a (Fin y) = (if 0 \<le> y then a else num_neg a)"
| "num_div a b = NaN"

text \<open>The comparison \<open>a < b\<close> on Numbers: false whenever an operand is NaN.\<close>

fun num_less :: "jsnum \<Rightarrow> jsnum \<Rightarrow> bool" where
  "num_less NaN b = False"
| "num_less a NaN = False"
| "num_less (Fin x) (Fin y) = (x < y)"
| "num_less a NegInf = False"
| "num_less NegInf b = True"
| "num_less PosInf b = False"
| "num_less (Fin x) PosInf = True"

text \<open>
  The value of a numeric property of a plain object: absent (\<open>undefined\<close>), \<open>null\<close>,
  or a Number.  \<open>ToNumber\<close> is the coercion the arithmetic and relational operators
  apply to it.
\<close>

datatype jsval = Undefined | Null | Number jsnum

fun ToNumber :: "jsval \<Rightarrow> jsnum" where
  "ToNumber Undefined = NaN"
| "ToNumber Null = Fin 0"
| "ToNumber (Number n) = n"

section \<open>Configuration\<close>

definition cities :: "string list" where
  "cities = [''Delhi'', ''Mumbai'', ''Chennai'', ''Bangalore'', ''Kolkata'', ''Hyderabad'']"

definition alertThreshold :: jsnum where
  "alertThreshold = Fin 35"

definition alertConsecutiveCount :: int where
  "alertConsecutiveCount = 2"

section \<open>The alert counters\<close>

text \<open>
  \<open>alertCounts\<close> is the process-wide object from city name to count.  A call of
  \<open>sendAlertEmail city temp\<close> is recorded as the pair \<open>(city, temp)\<close>; the function
  returns the updated counters and the calls it made.
\<close>

type_synonym alert_counts = "string \<rightharpoonup> int"

text \<open>\<open>alertCounts[city] || 0\<close>\<close>

definition count_or_0 :: "alert_counts \<Rightarrow> string \<Rightarrow> int" where
  "count_or_0 alertCounts city =
     (case alertCounts city of None \<Rightarrow> 0 | Some c \<Rightarrow> if c = 0 then 0 else c)"

definition checkAndSendAlert ::
  "string \<Rightarrow> jsval \<Rightarrow> alert_counts \<Rightarrow> alert_counts \<times> (string \<times> jsval) list" where
  "checkAndSendAlert city temp alertCounts =
     (if num_less alertThreshold (ToNumber temp) then
        (let n = count_or_0 alertCounts city + 1;
             alertCounts1 = alertCounts(city \<mapsto> n)
         in if alertConsecutiveCount \<le> n
            then (alertCounts1(city \<mapsto> 0), [(city, temp)])
            else (alertCounts1, []))
      else (alertCounts(city \<mapsto> 0), []))"

datatype alert_decision = NoAlert | Alert

text \<open>The decision of one call: \<open>Alert\<close> exactly when the notifier was invoked.\<close>

definition observe :: "string \<Rightarrow> jsval \<Rightarrow> alert_counts \<Rightarrow> alert_decision \<times> alert_counts" where
  "observe city temp alertCounts =
     (case checkAndSendAlert city temp alertCounts of
        (alertCounts', mails) \<Rightarrow> (if mails = [] then NoAlert else Alert, alertCounts'))"

text \<open>The readings of one city, processed in arrival order.\<close>

fun observe_all ::
  "string \<Rightarrow> jsval list \<Rightarrow> alert_counts \<Rightarrow> alert_decision list \<times> alert_counts" where
  "observe_all city [] alertCounts = ([], alertCounts)"
| "observe_all city (t # ts) alertCounts =
     (case observe city t alertCounts of
        (d, alertCounts') \<Rightarrow>
          (case observe_all city ts alertCounts' of (ds, alertCounts'') \<Rightarrow> (d # ds, alertCounts'')))"

text \<open>Any sequence of calls, for any cities, in order.\<close>

fun run_calls :: "(string \<times> jsval) list \<Rightarrow> alert_counts \<Rightarrow> alert_counts" where
  "run_calls [] alertCounts = alertCounts"
| "run_calls ((city, temp) # rest) alertCounts =
     run_calls rest (fst (checkAndSendAlert city temp alertCounts))"

text \<open>
  The alert state machine as the specification words it, over one integer counter: a
  reading above the threshold increments the count; a count that reaches the required
  number emits \<open>Alert\<close> and resets to 0; any other reading resets to 0.
\<close>

definition spec_observe :: "real \<Rightarrow> int \<Rightarrow> alert_decision \<times> int" where
  "spec_observe t count =
     (if 35 < t then (let c = count + 1 in if 2 \<le> c then (Alert, 0) else (NoAlert, c))
      else (NoAlert, 0))"

fun spec_run :: "real list \<Rightarrow> int \<Rightarrow> alert_decision list \<times> int" where
  "spec_run [] count = ([], count)"
| "spec_run (t # ts) count =
     (case spec_observe t count of
        (d, count') \<Rightarrow> (case spec_run ts count' of (ds, count'') \<Rightarrow> (d # ds, count'')))"

definition reading :: "real \<Rightarrow> jsval" where
  "reading t = Number (Fin t)"

section \<open>Observations and their cached form\<close>

text \<open>
  \<open>processedData\<close>, the object \<open>fetchWeatherData\<close> builds and returns.  \<open>o_main\<close> is
  \<open>None\<close> when \<open>weather[0].main\<close> is absent.
\<close>

record observation =
  o_city :: string
  o_main :: "string option"
  o_temp :: jsval
  o_feels_like :: jsval
  o_humidity :: jsval
  o_wind_speed :: jsval
  o_dt :: jsval

text \<open>
  The JSON text the cache holds, one entry per property: \<open>JSON.stringify\<close> leaves out a
  property whose value is \<open>undefined\<close> and writes \<open>null\<close> for NaN and the infinities;
  a finite Number is written in the shortest form that reads back as the same binary64
  value.
\<close>

datatype json_field = JAbsent | JNull | JNumber real

record cached_observation =
  c_city :: string
  c_main :: "string option"
  c_temp :: json_field
  c_feels_like :: json_field
  c_humidity :: json_field
  c_wind_speed :: json_field
  c_dt :: json_field

fun stringify_field :: "jsval \<Rightarrow> json_field" where
  "stringify_field Undefined = JAbsent"
| "stringify_field Null = JNull"
| "stringify_field (Number (Fin x)) = JNumber x"
| "stringify_field (Number n) = JNull"

fun parse_field :: "json_field \<Rightarrow> jsval" where
  "parse_field JAbsent = Undefined"
| "parse_field JNull = Null"
| "parse_field (JNumber x) = Number (Fin x)"

definition JSON_stringify :: "observation \<Rightarrow> cached_observation" where
  "JSON_stringify d =
     \<lparr>c_city = o_city d, c_main = o_main d, c_temp = stringify_field (o_temp d),
      c_feels_like = stringify_field (o_feels_like d),
      c_humidity = stringify_field (o_humidity d),
      c_wind_speed = stringify_field (o_wind_speed d), c_dt = stringify_field (o_dt d)\<rparr>"

definition JSON_parse :: "cached_observation \<Rightarrow> observation" where
  "JSON_parse c =
     \<lparr>o_city = c_city c, o_main = c_main c, o_temp = parse_field (c_temp c),
      o_feels_like = parse_field (c_feels_like c),
      o_humidity = parse_field (c_humidity c),
      o_wind_speed = parse_field (c_wind_speed c), o_dt = parse_field (c_dt c)\<rparr>"

section \<open>The cache store\<close>

text \<open>
  The cache store keeps, per key, a value and the time (in seconds) at which the entry
  expires.  \<open>getAsync\<close> reads an entry that has not expired; \<open>setAsync key v 'EX' ttl\<close>
  stores \<open>v\<close> to expire \<open>ttl\<close> seconds after the write.  The store itself is assumed to
  answer.
\<close>

type_synonym cache = "string \<rightharpoonup> (cached_observation \<times> nat)"

definition getAsync :: "cache \<Rightarrow> nat \<Rightarrow> string \<Rightarrow> cached_observation option" where
  "getAsync cache now key =
     (case cache key of
        None \<Rightarrow> None
      | Some (v, expires) \<Rightarrow> if now < expires then Some v else None)"

definition setAsync :: "cache \<Rightarrow> nat \<Rightarrow> string \<Rightarrow> cached_observation \<Rightarrow> nat \<Rightarrow> cache" where
  "setAsync cache now key v ttl = cache(key \<mapsto> (v, now + ttl))"

section \<open>The weather provider\<close>

text \<open>
  What \<open>https.get\<close> delivers for a city: an \<open>error\<close> event with its message, or a
  complete body.  A body is \<open>None\<close> when \<open>JSON.parse\<close> throws on it, and otherwise the
  parsed object, of which the server reads \<open>main\<close>, \<open>weather\<close>, \<open>wind\<close> and \<open>dt\<close>; each may
  be missing (\<open>None\<close>, \<open>Undefined\<close>).  \<open>r_weather\<close> lists \<open>main\<close> of each array element and
  \<open>r_wind\<close> is \<open>wind.speed\<close>.
\<close>

record main_obj =
  m_temp :: jsval
  m_feels_like :: jsval
  m_humidity :: jsval

record response =
  r_main :: "main_obj option"
  r_weather :: "string option list option"
  r_wind :: "jsval option"
  r_dt :: jsval

datatype provider_reply = NetworkError string | Body "response option"

text \<open>The literal \<open>273.15\<close> denotes the nearest binary64 value.\<close>

definition kelvin_offset :: real where
  "kelvin_offset = rnd (27315 / 100)"

text \<open>The expression \<open>x - 273.15\<close>, used for \<open>temp\<close> and \<open>feels_like\<close>.\<close>

definition toCelsius :: "jsval \<Rightarrow> jsval" where
  "toCelsius x = Number (num_sub (ToNumber x) (Fin kelvin_offset))"

text \<open>
  The body of the \<open>end\<close> handler up to the cache write.  Reading a property of an absent
  \<open>weather\<close>, \<open>weather[0]\<close>, \<open>main\<close> or \<open>wind\<close> throws a TypeError: the result is \<open>None\<close>.
\<close>

definition processResponse :: "string \<Rightarrow> response \<Rightarrow> observation option" where
  "processResponse city response =
     (case r_weather response of
        None \<Rightarrow> None
      | Some [] \<Rightarrow> None
      | Some (weather0 # _) \<Rightarrow>
          (case r_main response of
             None \<Rightarrow> None
           | Some mainv \<Rightarrow>
               (case r_wind response of
                  None \<Rightarrow> None
                | Some speed \<Rightarrow>
                    Some \<lparr>o_city = city, o_main = weather0,
                          o_temp = toCelsius (m_temp mainv),
                          o_feels_like = toCelsius (m_feels_like mainv),
                          o_humidity = m_humidity mainv,
                          o_wind_speed = speed,
                          o_dt = r_dt response\<rparr>)))"

section \<open>The cache-aside fetch\<close>

text \<open>
  The promise a call returns: resolved with a value, rejected with a reason, or never
  settled.  The last is the outcome when the \<open>end\<close> handler throws: the handler is an
  async function whose rejection nothing observes, so neither \<open>resolve\<close> nor \<open>reject\<close>
  of the promise returned by \<open>fetchWeatherData\<close> is ever called.  (A runtime that ends the
  process on an unhandled rejection ends it at that point; the caller is not resumed
  either way.)
\<close>

datatype 'a promise = Resolved 'a | Rejected string | Pending

datatype effect =
    CacheGet string
  | ProviderCall string
  | CacheSet string cached_observation nat

definition cacheKey :: "string \<Rightarrow> string" where
  "cacheKey city = ''weather:'' @ city"

definition fetchWeatherData ::
  "string \<Rightarrow> nat \<Rightarrow> (string \<Rightarrow> provider_reply) \<Rightarrow> cache
     \<Rightarrow> observation promise \<times> cache \<times> effect list" where
  "fetchWeatherData city now provider cache =
     (case getAsync cache now (cacheKey city) of
        Some cachedData \<Rightarrow> (Resolved (JSON_parse cachedData), cache, [CacheGet (cacheKey city)])
      | None \<Rightarrow>
          (case provider city of
             NetworkError message \<Rightarrow>
               (Rejected (''Error: '' @ message), cache,
                [CacheGet (cacheKey city), ProviderCall city])
           | Body None \<Rightarrow> (Pending, cache, [CacheGet (cacheKey city), ProviderCall city])
           | Body (Some response) \<Rightarrow>
               (case processResponse city response of
                  None \<Rightarrow> (Pending, cache, [CacheGet (cacheKey city), ProviderCall city])
                | Some processedData \<Rightarrow>
                    (Resolved processedData,
                     setAsync cache now (cacheKey city) (JSON_stringify processedData) 300,
                     [CacheGet (cacheKey city), ProviderCall city,
                      CacheSet (cacheKey city) (JSON_stringify processedData) 300]))))"

definition provider_calls :: "effect list \<Rightarrow> nat" where
  "provider_calls trace = length (filter (\<lambda>e. case e of ProviderCall _ \<Rightarrow> True | _ \<Rightarrow> False) trace)"

definition cache_writes :: "effect list \<Rightarrow> nat" where
  "cache_writes trace = length (filter (\<lambda>e. case e of CacheSet _ _ _ \<Rightarrow> True | _ \<Rightarrow> False) trace)"

text \<open>An observation all of whose numeric properties survive the JSON text unchanged.\<close>

fun json_exact :: "jsval \<Rightarrow> bool" where
  "json_exact (Number (Fin x)) = True"
| "json_exact (Number n) = False"
| "json_exact v = True"

definition json_exact_observation :: "observation \<Rightarrow> bool" where
  "json_exact_observation d =
     (json_exact (o_temp d) \<and> json_exact (o_feels_like d) \<and> json_exact (o_humidity d)
      \<and> json_exact (o_wind_speed d) \<and> json_exact (o_dt d))"

section \<open>The request handler for the latest observation\<close>

text \<open>
  \<open>app.get('/api/weather/:city')\<close>.  The query \<open>findOne({ city }).sort({ dt: -1 })\<close> is
  answered by the durable store: \<open>Inl\<close> when it rejects, \<open>Inr\<close> with the document found
  (\<open>None\<close> for \<open>null\<close>).
\<close>

datatype 'a http_response = ErrorStatus nat string | Json 'a

definition api_weather :: "string \<Rightarrow> (string \<Rightarrow> string + 'd option) \<Rightarrow> 'd option http_response" where
  "api_weather city findLatest =
     (if city \<notin> set cities then ErrorStatus 400 ''Invalid city''
      else (case findLatest city of
              Inl error \<Rightarrow> ErrorStatus 500 ''Internal server error''
            | Inr latestData \<Rightarrow> Json latestData))"

section \<open>The polling sweep\<close>

text \<open>
  \<open>saveWeatherData\<close> hands the observation (with the date derived from \<open>dt\<close>) to the
  durable store, which accepts the document or rejects with a message (\<open>save_error\<close>);
  \<open>saved\<close> lists the observations accepted so far.
\<close>

definition saveWeatherData ::
  "(observation \<Rightarrow> string option) \<Rightarrow> observation \<Rightarrow> observation list
     \<Rightarrow> unit promise \<times> observation list" where
  "saveWeatherData save_error data saved =
     (case save_error data of
        Some error \<Rightarrow> (Rejected error, saved)
      | None \<Rightarrow> (Resolved (), saved @ [data]))"

text \<open>
  One run of the interval callback of \<open>scheduleFetchWeatherData\<close>: the loop over the
  cities, each in a \<open>try\<close> whose \<open>catch\<close> logs the error.  An \<open>await\<close> on a promise that
  never settles never resumes: the sweep is stuck at that city.
\<close>

record system =
  sys_cache :: cache
  sys_saved :: "observation list"
  sys_alertCounts :: alert_counts
  sys_mails :: "(string \<times> jsval) list"
  sys_errors :: "(string \<times> string) list"
  sys_trace :: "effect list"

datatype sweep_status = Finished | Stuck string

fun sweep ::
  "nat \<Rightarrow> (string \<Rightarrow> provider_reply) \<Rightarrow> (observation \<Rightarrow> string option) \<Rightarrow> string list
     \<Rightarrow> system \<Rightarrow> system \<times> sweep_status" where
  "sweep now provider save_error [] s = (s, Finished)"
| "sweep now provider save_error (city # rest) s =
     (case fetchWeatherData city now provider (sys_cache s) of
        (Pending, cache', trace) \<Rightarrow>
          (s\<lparr>sys_cache := cache', sys_trace := sys_trace s @ trace\<rparr>, Stuck city)
      | (Rejected error, cache', trace) \<Rightarrow>
          sweep now provider save_error rest
            (s\<lparr>sys_cache := cache', sys_trace := sys_trace s @ trace,
               sys_errors := sys_errors s @ [(city, error)]\<rparr>)
      | (Resolved data, cache', trace) \<Rightarrow>
          (case saveWeatherData save_error data (sys_saved s) of
             (Pending, saved') \<Rightarrow>
               (s\<lparr>sys_cache := cache', sys_trace := sys_trace s @ trace,
                  sys_saved := saved'\<rparr>, Stuck city)
           | (Rejected error, saved') \<Rightarrow>
               sweep now provider save_error rest
                 (s\<lparr>sys_cache := cache', sys_trace := sys_trace s @ trace,
                    sys_saved := saved',
                    sys_errors := sys_errors s @ [(city, error)]\<rparr>)
           | (Resolved done, saved') \<Rightarrow>
               (case checkAndSendAlert city (o_temp data) (sys_alertCounts s) of
                  (alertCounts', mails) \<Rightarrow>
                    sweep now provider save_error rest
                      (s\<lparr>sys_cache := cache', sys_trace := sys_trace s @ trace,
                         sys_saved := saved',
                         sys_alertCounts := alertCounts',
                         sys_mails := sys_mails s @ mails\<rparr>))))"

definition initial_system :: system where
  "initial_system =
     \<lparr>sys_cache = Map.empty, sys_saved = [], sys_alertCounts = Map.empty, sys_mails = [],
      sys_errors = [], sys_trace = []\<rparr>"

section \<open>The daily summary\<close>

text \<open>
  A stored document, typed as \<open>weatherSchema\<close> declares it; \<open>d_date\<close> is the \<open>Date\<close> in
  milliseconds since the epoch.  No path of the schema is required: \<open>d_main\<close> is \<open>None\<close> for
  a document saved without \<open>main\<close> (its \<open>main\<close> reads \<open>undefined\<close>), as
  \<open>saveWeatherData\<close> saves an observation whose \<open>o_main\<close> is \<open>None\<close>.
\<close>

record doc =
  d_city :: string
  d_main :: "string option"
  d_temp :: jsnum
  d_feels_like :: jsnum
  d_humidity :: jsnum
  d_wind_speed :: jsnum
  d_dt :: jsnum
  d_date :: int

text \<open>
  \<open>setHours\<close> acts on the local time of the host that runs the server.  A host is given
  by its two conversions between time values (milliseconds since the epoch) and local
  time values: \<open>LocalTime\<close> from UTC to local time and \<open>UTC\<close> back; in a zone with daylight
  saving the offset they apply depends on the instant.  \<open>setHours\<close> keeps the local day
  of its date and replaces the time within the day.
\<close>

record host =
  LocalTime :: "int \<Rightarrow> int"
  UTC :: "int \<Rightarrow> int"

definition msPerDay :: int where
  "msPerDay = 86400000"

definition Day :: "int \<Rightarrow> int" where
  "Day t = t div msPerDay"

definition MakeTime :: "int \<Rightarrow> int \<Rightarrow> int \<Rightarrow> int \<Rightarrow> int" where
  "MakeTime hour minute sec ms = hour * 3600000 + minute * 60000 + sec * 1000 + ms"

definition MakeDate :: "int \<Rightarrow> int \<Rightarrow> int" where
  "MakeDate day time = day * msPerDay + time"

definition setHours :: "host \<Rightarrow> int \<Rightarrow> int \<Rightarrow> int \<Rightarrow> int \<Rightarrow> int \<Rightarrow> int" where
  "setHours h t hour minute sec ms =
     UTC h (MakeDate (Day (LocalTime h t)) (MakeTime hour minute sec ms))"

definition startOfDay :: "host \<Rightarrow> int \<Rightarrow> int" where
  "startOfDay h date = setHours h date 0 0 0 0"

definition endOfDay :: "host \<Rightarrow> int \<Rightarrow> int" where
  "endOfDay h date = setHours h date 23 59 59 999"

text \<open>
  \<open>arr.sort(cmp).pop()\<close> with \<open>cmp\<close> the difference of the numbers of occurrences in
  \<open>arr\<close>.  An array element is \<open>Some\<close> of a value, or \<open>None\<close> when it is \<open>undefined\<close>.
  \<open>Array.prototype.sort\<close> hands only the elements that are not \<open>undefined\<close> to the
  comparator and orders them stably, here ascending by number of occurrences; it puts
  the \<open>undefined\<close> elements after them.  \<open>pop\<close> returns the last element, and \<open>undefined\<close>
  for an empty array.
\<close>

definition occurrences :: "'a list \<Rightarrow> 'a \<Rightarrow> nat" where
  "occurrences arr a = length (filter (\<lambda>v. v = a) arr)"

definition sort_by_occurrences :: "'a option list \<Rightarrow> 'a option list" where
  "sort_by_occurrences arr =
     sort_key (occurrences arr) (filter (\<lambda>v. v \<noteq> None) arr) @ filter (\<lambda>v. v = None) arr"

definition pop :: "'a option list \<Rightarrow> 'a option" where
  "pop arr = (case arr of [] \<Rightarrow> None | first # rest \<Rightarrow> last arr)"

definition getMostFrequent :: "'a option list \<Rightarrow> 'a option" where
  "getMostFrequent arr = pop (sort_by_occurrences arr)"

text \<open>
  \<open>Math.max\<close> and \<open>Math.min\<close> over the spread array: \<open>-Infinity\<close> and \<open>Infinity\<close> for no
  argument, NaN as soon as an argument is NaN.
\<close>

fun max2 :: "jsnum \<Rightarrow> jsnum \<Rightarrow> jsnum" where
  "max2 NaN b = NaN"
| "max2 a NaN = NaN"
| "max2 a b = (if num_less a b then b else a)"

fun min2 :: "jsnum \<Rightarrow> jsnum \<Rightarrow> jsnum" where
  "min2 NaN b = NaN"
| "min2 a NaN = NaN"
| "min2 a b = (if num_less b a then b else a)"

definition Math_max :: "jsnum list \<Rightarrow> jsnum" where
  "Math_max xs = foldl max2 NegInf xs"

definition Math_min :: "jsnum list \<Rightarrow> jsnum" where
  "Math_min xs = foldl min2 PosInf xs"

definition array_length :: "'a list \<Rightarrow> jsnum" where
  "array_length xs = Fin (real (length xs))"

record summary =
  s_city :: string
  s_date :: int
  avgTemp :: jsnum
  maxTemp :: jsnum
  minTemp :: jsnum
  dominantWeather :: "string option"
  avgHumidity :: jsnum
  avgWindSpeed :: jsnum

text \<open>The documents \<open>WeatherData.find\<close> selects, in the order the store returns them.\<close>

definition find_window :: "host \<Rightarrow> string \<Rightarrow> int \<Rightarrow> doc list \<Rightarrow> doc list" where
  "find_window h city date store =
     filter (\<lambda>d. d_city d = city \<and> startOfDay h date \<le> d_date d
                 \<and> d_date d \<le> endOfDay h date) store"

text \<open>
  \<open>calculateDailySummary\<close> on the host \<open>h\<close>; the store is \<open>Inl\<close> when the query rejects (the
  rejection is the function's own) and \<open>Inr\<close> with its documents otherwise.
\<close>

definition calculateDailySummary ::
  "host \<Rightarrow> string \<Rightarrow> int \<Rightarrow> string + doc list \<Rightarrow> string + summary" where
  "calculateDailySummary h city date store =
     (case store of
        Inl error \<Rightarrow> Inl error
      | Inr documents \<Rightarrow>
          (let data = find_window h city date documents;
               temperatures = map d_temp data;
               weatherConditions = map d_main data
           in Inr \<lparr>s_city = city,
                   s_date = startOfDay h date,
                   avgTemp = num_div (foldl (\<lambda>a b. num_add a b) (Fin 0) temperatures)
                               (array_length temperatures),
                   maxTemp = Math_max temperatures,
                   minTemp = Math_min temperatures,
                   dominantWeather = getMostFrequent weatherConditions,
                   avgHumidity = num_div (foldl (\<lambda>sum d. num_add sum (d_humidity d)) (Fin 0) data)
                                   (array_length data),
                   avgWindSpeed = num_div (foldl (\<lambda>sum d. num_add sum (d_wind_speed d)) (Fin 0) data)
                                   (array_length data)\<rparr>))"

text \<open>
  The dominant condition as the specification words it: among the values that occur most
  often, the one met last in array order.
\<close>

definition last_most_frequent :: "'a list \<Rightarrow> 'a" where
  "last_most_frequent arr =
     last (filter (\<lambda>v. occurrences arr v = Max (occurrences arr ` set arr)) arr)"

section \<open>Replies the fetch can settle on\<close>

text \<open>
  A reply on which the \<open>end\<close> handler does not throw, or an \<open>error\<close> event.
\<close>

fun well_formed_reply :: "string \<Rightarrow> provider_reply \<Rightarrow> bool" where
  "well_formed_reply city (NetworkError message) = True"
| "well_formed_reply city (Body None) = False"
| "well_formed_reply city (Body (Some response)) = (processResponse city response \<noteq> None)"

section \<open>Example inputs\<close>

text \<open>A complete reply reporting 273.15 K, and the observation built from it.\<close>

definition example_response :: response where
  "example_response =
     \<lparr>r_main = Some \<lparr>m_temp = Number (Fin kelvin_offset),
                      m_feels_like = Number (Fin kelvin_offset),
                      m_humidity = Number (Fin 40)\<rparr>,
      r_weather = Some [Some ''Clear''],
      r_wind = Some (Number (Fin 3)),
      r_dt = Number (Fin 1700000000)\<rparr>"

definition example_observation :: "string \<Rightarrow> observation" where
  "example_observation city =
     \<lparr>o_city = city, o_main = Some ''Clear'', o_temp = Number (Fin 0),
      o_feels_like = Number (Fin 0), o_humidity = Number (Fin 40),
      o_wind_speed = Number (Fin 3), o_dt = Number (Fin 1700000000)\<rparr>"

text \<open>
  The provider's error object, such as \<open>{"cod": 401, "message": "Invalid API key"}\<close>:
  valid JSON without \<open>weather\<close>, \<open>main\<close> or \<open>wind\<close>.
\<close>

definition error_response :: response where
  "error_response = \<lparr>r_main = None, r_weather = None, r_wind = None, r_dt = Undefined\<rparr>"

text \<open>A reply whose \<open>main\<close> carries no \<open>temp\<close> and no \<open>feels_like\<close>.\<close>

definition partial_response :: response where
  "partial_response =
     \<lparr>r_main = Some \<lparr>m_temp = Undefined, m_feels_like = Undefined,
                      m_humidity = Number (Fin 40)\<rparr>,
      r_weather = Some [Some ''Clear''],
      r_wind = Some (Number (Fin 3)),
      r_dt = Number (Fin 1700000000)\<rparr>"

definition partial_provider :: "string \<Rightarrow> provider_reply" where
  "partial_provider city = Body (Some partial_response)"

definition partial_observation :: "jsval \<Rightarrow> observation" where
  "partial_observation t =
     \<lparr>o_city = ''Delhi'', o_main = Some ''Clear'', o_temp = t, o_feels_like = t,
      o_humidity = Number (Fin 40), o_wind_speed = Number (Fin 3),
      o_dt = Number (Fin 1700000000)\<rparr>"

definition example_provider :: "string \<Rightarrow> provider_reply" where
  "example_provider city = Body (Some example_response)"

definition unreachable_provider :: "string \<Rightarrow> provider_reply" where
  "unreachable_provider city = NetworkError ''connect ETIMEDOUT''"

definition error_body_provider :: "string \<Rightarrow> provider_reply" where
  "error_body_provider city = Body (Some error_response)"

definition delhi_error_provider :: "string \<Rightarrow> provider_reply" where
  "delhi_error_provider city =
     (if city = ''Delhi'' then Body (Some error_response) else Body (Some example_response))"

definition delhi_down_provider :: "string \<Rightarrow> provider_reply" where
  "delhi_down_provider city =
     (if city = ''Delhi'' then NetworkError ''connect ETIMEDOUT''
      else Body (Some example_response))"

definition accepting_store :: "observation \<Rightarrow> string option" where
  "accepting_store d = None"

definition no_documents :: "string \<Rightarrow> string + doc option" where
  "no_documents city = Inr None"

text \<open>
  A stored reading of 303.16 K, converted as \<open>fetchWeatherData\<close> converts it
  (30.010000000000048 degrees).
\<close>

definition stable_reading :: doc where
  "stable_reading =
     \<lparr>d_city = ''Delhi'', d_main = Some ''Clear'',
      d_temp = ToNumber (toCelsius (Number (Fin (rnd (30316 / 100))))),
      d_feels_like = ToNumber (toCelsius (Number (Fin (rnd (30316 / 100))))),
      d_humidity = Fin 40, d_wind_speed = Fin 3, d_dt = Fin 1700000000,
      d_date = 1700000000000\<rparr>"

definition mumbai_reading :: doc where
  "mumbai_reading =
     \<lparr>d_city = ''Mumbai'', d_main = Some ''Rain'', d_temp = Fin 29, d_feels_like = Fin 31,
      d_humidity = Fin 80, d_wind_speed = Fin 5, d_dt = Fin 1700000000,
      d_date = 1700000000000\<rparr>"

text \<open>
  Hosts: a zone at a fixed offset from UTC (India, where the monitored cities lie, is at
  +05:30 all year), and a zone with daylight saving around its change of 31 March 2024,
  01:00 UTC, from +01:00 to +02:00 (the local times from 02:00 to 03:00 of that day do not
  exist and are read with the earlier offset).
\<close>

definition fixed_offset :: "int \<Rightarrow> host" where
  "fixed_offset offset = \<lparr>LocalTime = (\<lambda>t. t + offset), UTC = (\<lambda>t. t - offset)\<rparr>"

definition india_host :: host where
  "india_host = fixed_offset 19800000"

definition berlin_host :: host where
  "berlin_host =
     \<lparr>LocalTime = (\<lambda>t. if t < 1711846800000 then t + 3600000 else t + 7200000),
      UTC = (\<lambda>t. if t < 1711854000000 then t - 3600000 else t - 7200000)\<rparr>"

text \<open>
  A day of Delhi readings with their conditions, stored among a Mumbai reading and a Delhi
  reading of another day.
\<close>

definition delhi_reading :: "string option \<Rightarrow> int \<Rightarrow> doc" where
  "delhi_reading condition time =
     \<lparr>d_city = ''Delhi'', d_main = condition, d_temp = Fin 30, d_feels_like = Fin 32,
      d_humidity = Fin 40, d_wind_speed = Fin 3, d_dt = Fin (of_int (time div 1000)),
      d_date = time\<rparr>"

definition delhi_day :: "doc list" where
  "delhi_day =
     [delhi_reading (Some ''Rain'') 1700000000000,
      mumbai_reading,
      delhi_reading (Some ''Clear'') 1700000300000,
      delhi_reading (Some ''Clear'') 1700000600000,
      delhi_reading (Some ''Rain'') 1700000900000,
      delhi_reading (Some ''Haze'') 1700001200000,
      delhi_reading (Some ''Haze'') 1600000000000]"

text \<open>Two Delhi readings of one day with different conditions.\<close>

definition delhi_pair :: "doc list" where
  "delhi_pair =
     [delhi_reading (Some ''Rain'') 1700000000000,
      delhi_reading (Some ''Clear'') 1700000300000]"

text \<open>Three Delhi readings of one day, the second saved without \<open>main\<close>.\<close>

definition delhi_untitled :: "doc list" where
  "delhi_untitled =
     [delhi_reading (Some ''Rain'') 1700000000000,
      delhi_reading None 1700000300000,
      delhi_reading (Some ''Rain'') 1700000600000]"

section \<open>Properties of the alert counters\<close>

lemma observe_reading:
  "observe city (reading t) counts =
     (fst (spec_observe t (count_or_0 counts city)),
      counts(city \<mapsto> snd (spec_observe t (count_or_0 counts city))))"
  by (simp add: observe_def checkAndSendAlert_def spec_observe_def reading_def
      alertThreshold_def alertConsecutiveCount_def Let_def)

lemma count_or_0_upd: "count_or_0 (counts(city \<mapsto> c)) city = c"
  by (simp add: count_or_0_def)

lemma observe_all_refines:
  "observe_all city (map reading ts) counts = (ds, counts') \<Longrightarrow>
     spec_run ts (count_or_0 counts city) = (ds, count_or_0 counts' city) \<and>
     (\<forall>other. other \<noteq> city \<longrightarrow> counts' other = counts other)"
proof (induction ts arbitrary: counts ds counts')
  case Nil
  then show ?case by simp
next
  case (Cons t ts)
  let ?c1 = "counts(city \<mapsto> snd (spec_observe t (count_or_0 counts city)))"
  obtain ds1 c2 where rest: "observe_all city (map reading ts) ?c1 = (ds1, c2)"
    by (cases "observe_all city (map reading ts) ?c1")
  from Cons.prems rest have ds: "ds = fst (spec_observe t (count_or_0 counts city)) # ds1"
    and c2: "counts' = c2"
    by (simp_all add: observe_reading)
  note ih = Cons.IH [OF rest, unfolded count_or_0_upd]
  from ih have
    run: "spec_run ts (snd (spec_observe t (count_or_0 counts city))) = (ds1, count_or_0 c2 city)"
    by (rule conjunct1)
  from ih have frame: "\<forall>other. other \<noteq> city \<longrightarrow> c2 other = ?c1 other"
    by (rule conjunct2)
  from run ds c2 have "spec_run (t # ts) (count_or_0 counts city) = (ds, count_or_0 counts' city)"
    by (simp add: case_prod_beta)
  moreover from frame c2 have "\<forall>other. other \<noteq> city \<longrightarrow> counts' other = counts other"
    by simp
  ultimately show ?case by simp
qed

text \<open>
  Claim C1.  For every monitored city and every sequence of temperature readings, the
  calls of \<open>checkAndSendAlert\<close> behave as the alert state machine with threshold 35
  and two required consecutive breaches: a reading strictly above 35 increments the
  city's count, and a count that reaches 2 sends the alert and is reset to 0; a reading
  at or below 35 resets the count to 0 without an alert; the counts of the other cities
  are untouched.  From the empty counters the readings 36, 37 give NoAlert, Alert and
  leave the count at 0, a following 36 gives NoAlert, and 36, 10, 36 give three
  NoAlert.
\<close>

theorem alert_state_machine:
  assumes "city \<in> set cities"
  shows "observe city (reading t) counts =
           (if 35 < t
            then (if 2 \<le> count_or_0 counts city + 1
                  then (Alert, counts(city \<mapsto> 0))
                  else (NoAlert, counts(city \<mapsto> count_or_0 counts city + 1)))
            else (NoAlert, counts(city \<mapsto> 0)))
       \<and> fst (observe_all city (map reading ts) counts)
           = fst (spec_run ts (count_or_0 counts city))
       \<and> count_or_0 (snd (observe_all city (map reading ts) counts)) city
           = snd (spec_run ts (count_or_0 counts city))
       \<and> (other \<noteq> city \<longrightarrow>
            snd (observe_all city (map reading ts) counts) other = counts other)
       \<and> observe_all city (map reading [36, 37]) Map.empty = ([NoAlert, Alert], [city \<mapsto> 0])
       \<and> observe_all city (map reading [36]) [city \<mapsto> 0] = ([NoAlert], [city \<mapsto> 1])
       \<and> observe_all city (map reading [36, 10, 36]) Map.empty
           = ([NoAlert, NoAlert, NoAlert], [city \<mapsto> 1])"
proof -
  have step: "observe city (reading t) counts =
           (if 35 < t
            then (if 2 \<le> count_or_0 counts city + 1
                  then (Alert, counts(city \<mapsto> 0))
                  else (NoAlert, counts(city \<mapsto> count_or_0 counts city + 1)))
            else (NoAlert, counts(city \<mapsto> 0)))"
    by (simp add: observe_reading spec_observe_def Let_def)
  obtain ds counts' where run: "observe_all city (map reading ts) counts = (ds, counts')"
    by (cases "observe_all city (map reading ts) counts")
  note ref = observe_all_refines [OF run]
  from ref run
  have decisions: "fst (observe_all city (map reading ts) counts)
      = fst (spec_run ts (count_or_0 counts city))"
    by simp
  from ref run
  have count: "count_or_0 (snd (observe_all city (map reading ts) counts)) city
           = snd (spec_run ts (count_or_0 counts city))"
    by simp
  from ref run
  have frame: "other \<noteq> city \<longrightarrow>
      snd (observe_all city (map reading ts) counts) other = counts other"
    by simp
  have ex1: "observe_all city (map reading [36, 37]) Map.empty
      = ([NoAlert, Alert], [city \<mapsto> 0])"
    by (simp add: observe_reading spec_observe_def count_or_0_def)
  have ex2: "observe_all city (map reading [36]) [city \<mapsto> 0] = ([NoAlert], [city \<mapsto> 1])"
    by (simp add: observe_reading spec_observe_def count_or_0_def)
  have ex3: "observe_all city (map reading [36, 10, 36]) Map.empty
           = ([NoAlert, NoAlert, NoAlert], [city \<mapsto> 1])"
    by (simp add: observe_reading spec_observe_def count_or_0_def)
  from step decisions count frame ex1 ex2 ex3 show ?thesis
    by (intro conjI)
qed

theorem alert_state_machine_witness:
  "''Delhi'' \<in> set cities \<and>
   observe ''Delhi'' (reading 36) [''Delhi'' \<mapsto> 1] = (Alert, [''Delhi'' \<mapsto> 0]) \<and>
   fst (observe_all ''Delhi'' (map reading [36, 37, 38, 20, 40]) [''Delhi'' \<mapsto> 1])
     = [Alert, NoAlert, Alert, NoAlert, NoAlert] \<and>
   snd (observe_all ''Delhi'' (map reading [36, 37, 38, 20, 40]) [''Delhi'' \<mapsto> 1]) ''Mumbai''
     = None \<and>
   observe_all ''Delhi'' (map reading [36, 37]) Map.empty = ([NoAlert, Alert], [''Delhi'' \<mapsto> 0])"
proof -
  have member: "''Delhi'' \<in> set cities"
    by (simp add: cities_def)
  from alert_state_machine [OF member, of 36 "[''Delhi'' \<mapsto> 1]" "[36, 37, 38, 20, 40]" "''Mumbai''"]
  show ?thesis
    using member by (simp add: count_or_0_def spec_observe_def del: observe_all.simps)
qed

lemma checkAndSendAlert_range:
  assumes "\<forall>k c. counts k = Some c \<longrightarrow> c = 0 \<or> c = 1"
  shows "\<forall>k c. fst (checkAndSendAlert city temp counts) k = Some c \<longrightarrow> c = 0 \<or> c = 1"
proof -
  have "count_or_0 counts city = 0 \<or> count_or_0 counts city = 1"
    using assms by (auto simp: count_or_0_def split: option.splits)
  then show ?thesis
    using assms
    by (auto simp: checkAndSendAlert_def alertConsecutiveCount_def Let_def split: if_splits)
qed

lemma checkAndSendAlert_dom:
  "dom (fst (checkAndSendAlert city temp counts)) = insert city (dom counts)"
  by (simp add: checkAndSendAlert_def Let_def)

lemma run_calls_range:
  "\<forall>k c. counts k = Some c \<longrightarrow> c = 0 \<or> c = 1 \<Longrightarrow>
   \<forall>k c. run_calls calls counts k = Some c \<longrightarrow> c = 0 \<or> c = 1"
proof (induction calls arbitrary: counts)
  case Nil
  then show ?case by simp
next
  case (Cons call calls)
  obtain city temp where call: "call = (city, temp)"
    by (cases call)
  have "\<forall>k c. fst (checkAndSendAlert city temp counts) k = Some c \<longrightarrow> c = 0 \<or> c = 1"
    using Cons.prems by (rule checkAndSendAlert_range)
  then have "\<forall>k c. run_calls calls (fst (checkAndSendAlert city temp counts)) k = Some c
      \<longrightarrow> c = 0 \<or> c = 1"
    by (rule Cons.IH)
  then show ?case by (simp add: call)
qed

lemma run_calls_dom: "dom (run_calls calls counts) = fst ` set calls \<union> dom counts"
proof (induction calls arbitrary: counts)
  case Nil
  then show ?case by simp
next
  case (Cons call calls)
  obtain city temp where call: "call = (city, temp)"
    by (cases call)
  show ?case
    by (simp add: call Cons.IH checkAndSendAlert_dom)
qed

text \<open>
  Claim C10.  Starting from the empty counter object, after any sequence of calls of
  \<open>checkAndSendAlert\<close> for monitored cities, every city that has been seen has count 0
  or 1 (never negative, never at or above the required consecutive count 2), and a city
  never seen has no entry (read as 0).
\<close>

theorem alert_count_range:
  assumes "fst ` set calls \<subseteq> set cities"
  shows "(case run_calls calls Map.empty city of
            None \<Rightarrow> city \<notin> fst ` set calls
          | Some c \<Rightarrow> city \<in> fst ` set calls \<and> (c = 0 \<or> c = 1) \<and> 0 \<le> c
                       \<and> c < alertConsecutiveCount)
       \<and> (count_or_0 (run_calls calls Map.empty) city = 0
          \<or> count_or_0 (run_calls calls Map.empty) city = 1)"
proof -
  have range: "\<forall>k c. run_calls calls Map.empty k = Some c \<longrightarrow> c = 0 \<or> c = 1"
    by (rule run_calls_range) simp
  have dom: "dom (run_calls calls Map.empty) = fst ` set calls"
    by (simp add: run_calls_dom)
  have entry: "(case run_calls calls Map.empty city of
            None \<Rightarrow> city \<notin> fst ` set calls
          | Some c \<Rightarrow> city \<in> fst ` set calls \<and> (c = 0 \<or> c = 1) \<and> 0 \<le> c
                       \<and> c < alertConsecutiveCount)"
  proof (cases "run_calls calls Map.empty city")
    case None
    then have "city \<notin> dom (run_calls calls Map.empty)" by (simp add: domIff)
    with dom None show ?thesis by simp
  next
    case (Some c)
    then have "city \<in> dom (run_calls calls Map.empty)" by (simp add: domIff)
    moreover from range Some have "c = 0 \<or> c = 1" by blast
    ultimately show ?thesis using dom Some by (auto simp: alertConsecutiveCount_def)
  qed
  from range have "count_or_0 (run_calls calls Map.empty) city = 0
         \<or> count_or_0 (run_calls calls Map.empty) city = 1"
    by (auto simp: count_or_0_def split: option.splits)
  with entry show ?thesis by (rule conjI)
qed

theorem alert_count_range_witness:
  "fst ` set [(''Delhi'', reading 36), (''Mumbai'', reading 40), (''Delhi'', reading 37),
              (''Mumbai'', reading 12), (''Delhi'', reading 39)] \<subseteq> set cities \<and>
   run_calls [(''Delhi'', reading 36), (''Mumbai'', reading 40), (''Delhi'', reading 37),
              (''Mumbai'', reading 12), (''Delhi'', reading 39)] Map.empty ''Delhi'' = Some 1 \<and>
   (count_or_0 (run_calls [(''Delhi'', reading 36), (''Mumbai'', reading 40),
              (''Delhi'', reading 37), (''Mumbai'', reading 12), (''Delhi'', reading 39)]
              Map.empty) ''Mumbai'' = 0 \<or>
    count_or_0 (run_calls [(''Delhi'', reading 36), (''Mumbai'', reading 40),
              (''Delhi'', reading 37), (''Mumbai'', reading 12), (''Delhi'', reading 39)]
              Map.empty) ''Mumbai'' = 1)"
proof -
  let ?calls = "[(''Delhi'', reading 36), (''Mumbai'', reading 40), (''Delhi'', reading 37),
              (''Mumbai'', reading 12), (''Delhi'', reading 39)]"
  have sub: "fst ` set ?calls \<subseteq> set cities"
    by (simp add: cities_def)
  have run: "run_calls ?calls Map.empty ''Delhi'' = Some 1"
    by (simp add: checkAndSendAlert_def reading_def alertThreshold_def
        alertConsecutiveCount_def count_or_0_def Let_def)
  from alert_count_range [OF sub, of "''Mumbai''"] sub run show ?thesis
    by blast
qed

section \<open>Properties of the rounding\<close>

lemmas rnd_eval = rnd_def expo_def ilog2.simps scale2_def roundeven_def Let_def

text \<open>
  The rounding agrees with binary64 on the familiar values: \<open>0.1\<close>, \<open>0.1 + 0.2\<close>
  (which is \<open>0.30000000000000004\<close>) and the exactly representable \<open>1\<close> and \<open>0.5\<close>.
\<close>

lemma rnd_examples:
  "rnd (1 / 10) = 3602879701896397 / 36028797018963968"
  "rnd (2 / 10) = 3602879701896397 / 18014398509481984"
  "rnd (rnd (1 / 10) + rnd (2 / 10)) = 1351079888211149 / 4503599627370496"
  "rnd 1 = 1"
  "rnd (1 / 2) = 1 / 2"
  by (simp_all add: rnd_eval)

lemma rnd_0: "rnd 0 = 0"
  by (simp add: rnd_def)

lemma fl_0: "fl 0 = Fin 0"
  by (simp add: fl_def rnd_0)

lemma kelvin_offset_value: "kelvin_offset = 2402652809016115 / 8796093022208"
  by (simp add: kelvin_offset_def rnd_eval)

lemma ilog2_bounds: "1 \<le> n \<Longrightarrow> 2 ^ ilog2 n \<le> n \<and> n < 2 ^ Suc (ilog2 n)"
proof (induction n rule: ilog2.induct)
  case (1 n)
  show ?case
  proof (cases "n < 2")
    case True
    with "1.prems" have "n = 1" by simp
    then show ?thesis by (simp add: ilog2.simps)
  next
    case False
    then have half: "1 \<le> n div 2" by simp
    from "1.IH" [OF False half]
    have lo: "2 ^ ilog2 (n div 2) \<le> n div 2" and hi: "n div 2 < 2 ^ Suc (ilog2 (n div 2))"
      by simp_all
    have eq: "ilog2 n = Suc (ilog2 (n div 2))"
      using False by (subst ilog2.simps) simp
    from lo have "2 * 2 ^ ilog2 (n div 2) \<le> n" by linarith
    moreover from hi have "n < 2 * 2 ^ Suc (ilog2 (n div 2))" by linarith
    ultimately show ?thesis by (simp add: eq)
  qed
qed

lemma expo_lower:
  assumes "0 < x"
  shows "scale2 (expo x) 1 \<le> x"
proof (cases "1 \<le> x")
  case True
  then have n: "1 \<le> nat \<lfloor>x\<rfloor>" by linarith
  from ilog2_bounds [OF n] have "2 ^ ilog2 (nat \<lfloor>x\<rfloor>) \<le> nat \<lfloor>x\<rfloor>" by simp
  then have "(2::real) ^ ilog2 (nat \<lfloor>x\<rfloor>) \<le> real (nat \<lfloor>x\<rfloor>)"
    by (metis of_nat_le_iff of_nat_numeral of_nat_power)
  also have "\<dots> \<le> x" using True by linarith
  finally show ?thesis using True by (simp add: expo_def scale2_def)
next
  case False
  with assms have inv: "1 < 1 / x" by simp
  let ?n = "nat (\<lceil>1 / x\<rceil> - 1)"
  have n: "1 \<le> ?n" using inv by linarith
  from ilog2_bounds [OF n] have "?n < 2 ^ Suc (ilog2 ?n)" by simp
  then have "Suc ?n \<le> 2 ^ Suc (ilog2 ?n)" by simp
  then have "real (Suc ?n) \<le> 2 ^ Suc (ilog2 ?n)"
    by (metis of_nat_le_iff of_nat_numeral of_nat_power)
  moreover have "1 / x \<le> real (Suc ?n)" using inv by linarith
  ultimately have "1 / x \<le> 2 ^ Suc (ilog2 ?n)" by linarith
  then have "1 \<le> x * 2 ^ Suc (ilog2 ?n)"
    using assms by (simp add: field_simps)
  then have "1 / 2 ^ Suc (ilog2 ?n) \<le> x"
    by (simp add: field_simps)
  moreover have "nat (int (ilog2 ?n) + 1) = Suc (ilog2 ?n)" by simp
  ultimately show ?thesis using False by (simp add: expo_def scale2_def)
qed

lemma expo_upper:
  assumes "0 < x"
  shows "x < scale2 (expo x + 1) 1"
proof (cases "1 \<le> x")
  case True
  then have n: "1 \<le> nat \<lfloor>x\<rfloor>" by linarith
  from ilog2_bounds [OF n] have "nat \<lfloor>x\<rfloor> < 2 ^ Suc (ilog2 (nat \<lfloor>x\<rfloor>))" by simp
  then have "Suc (nat \<lfloor>x\<rfloor>) \<le> 2 ^ Suc (ilog2 (nat \<lfloor>x\<rfloor>))" by simp
  then have "real (Suc (nat \<lfloor>x\<rfloor>)) \<le> 2 ^ Suc (ilog2 (nat \<lfloor>x\<rfloor>))"
    by (metis of_nat_le_iff of_nat_numeral of_nat_power)
  moreover have "x < real (Suc (nat \<lfloor>x\<rfloor>))" using True by linarith
  ultimately have "x < 2 ^ Suc (ilog2 (nat \<lfloor>x\<rfloor>))" by linarith
  moreover have "nat (int (ilog2 (nat \<lfloor>x\<rfloor>)) + 1) = Suc (ilog2 (nat \<lfloor>x\<rfloor>))" by simp
  ultimately show ?thesis using True by (simp add: expo_def scale2_def)
next
  case False
  with assms have inv: "1 < 1 / x" by simp
  let ?n = "nat (\<lceil>1 / x\<rceil> - 1)"
  have n: "1 \<le> ?n" using inv by linarith
  from ilog2_bounds [OF n] have "2 ^ ilog2 ?n \<le> ?n" by simp
  then have "(2::real) ^ ilog2 ?n \<le> real ?n"
    by (metis of_nat_le_iff of_nat_numeral of_nat_power)
  moreover have "real ?n < 1 / x" using inv by linarith
  ultimately have "(2::real) ^ ilog2 ?n < 1 / x" by linarith
  then have "x * 2 ^ ilog2 ?n < 1"
    using assms by (simp add: field_simps)
  then have lt: "x < 1 / 2 ^ ilog2 ?n"
    by (simp add: field_simps)
  have e: "expo x + 1 = - int (ilog2 ?n)"
    using False by (simp add: expo_def)
  show ?thesis
  proof (cases "ilog2 ?n = 0")
    case True
    with lt e show ?thesis by (simp add: scale2_def)
  next
    case nz: False
    then have "\<not> 0 \<le> - int (ilog2 ?n)" by simp
    with lt show ?thesis unfolding e by (simp add: scale2_def)
  qed
qed

lemma roundeven_error: "\<bar>of_int (roundeven m) - m\<bar> \<le> 1 / 2"
  unfolding roundeven_def Let_def by (auto; linarith)

lemma scale2_inverse: "scale2 e (scale2 (- e) x) = x"
  by (simp add: scale2_def)

lemma scale2_diff: "scale2 e a - scale2 e b = scale2 e (a - b)"
  by (simp add: scale2_def algebra_simps diff_divide_distrib)

lemma scale2_abs: "\<bar>scale2 e a\<bar> = scale2 e \<bar>a\<bar>"
  by (simp add: scale2_def abs_mult)

lemma scale2_mono: "a \<le> b \<Longrightarrow> scale2 e a \<le> scale2 e b"
  by (simp add: scale2_def divide_right_mono)

lemma rnd_error_scale:
  assumes "x \<noteq> 0"
  shows "\<bar>rnd x - x\<bar> \<le> scale2 (max (expo \<bar>x\<bar> - 52) (- 1074)) (1 / 2)"
proof -
  let ?e = "max (expo \<bar>x\<bar> - 52) (- 1074)"
  let ?m = "scale2 (- ?e) x"
  have "rnd x - x = scale2 ?e (of_int (roundeven ?m)) - scale2 ?e ?m"
    using assms by (simp add: rnd_def Let_def scale2_inverse)
  also have "\<dots> = scale2 ?e (of_int (roundeven ?m) - ?m)"
    by (rule scale2_diff)
  finally have "\<bar>rnd x - x\<bar> = scale2 ?e \<bar>of_int (roundeven ?m) - ?m\<bar>"
    by (simp add: scale2_abs)
  also have "\<dots> \<le> scale2 ?e (1 / 2)"
    by (rule scale2_mono) (rule roundeven_error)
  finally show ?thesis .
qed

lemma scale2_shift: "scale2 (e - 52) y = scale2 e y / 2 ^ 52"
proof -
  consider "52 \<le> e" | "0 \<le> e" "e < 52" | "e < 0" by linarith
  then show ?thesis
  proof cases
    case 1
    then have "nat e = nat (e - 52) + 52" by linarith
    then have "(2::real) ^ nat e = 2 ^ nat (e - 52) * 2 ^ 52"
      by (simp only: power_add)
    with 1 show ?thesis by (simp add: scale2_def)
  next
    case 2
    then have "52 = nat e + nat (52 - e)" by linarith
    then have "(2::real) ^ 52 = 2 ^ nat e * 2 ^ nat (52 - e)"
      by (simp only: power_add [symmetric])
    with 2 show ?thesis by (simp add: scale2_def field_simps)
  next
    case 3
    then have "nat (52 - e) = nat (- e) + 52" by linarith
    then have "(2::real) ^ nat (52 - e) = 2 ^ nat (- e) * 2 ^ 52"
      by (simp only: power_add)
    with 3 show ?thesis by (simp add: scale2_def)
  qed
qed

text \<open>
  The rounding error is at most half a unit in the last place: a relative error of
  \<open>2\<^sup>-\<^sup>5\<^sup>3\<close>, or \<open>2\<^sup>-\<^sup>1\<^sup>0\<^sup>7\<^sup>5\<close> in the subnormal range.
\<close>

lemma rnd_error:
  assumes "x \<noteq> 0"
  shows "\<bar>rnd x - x\<bar> \<le> max (\<bar>x\<bar> / 2 ^ 53) (1 / 2 ^ 1075)"
proof -
  let ?e = "max (expo \<bar>x\<bar> - 52) (- 1074)"
  note err = rnd_error_scale [OF assms]
  show ?thesis
  proof (cases "- 1074 \<le> expo \<bar>x\<bar> - 52")
    case True
    then have e: "?e = expo \<bar>x\<bar> - 52" by simp
    have "scale2 ?e (1 / 2) = scale2 (expo \<bar>x\<bar>) (1 / 2) / 2 ^ 52"
      unfolding e by (rule scale2_shift)
    also have "\<dots> = scale2 (expo \<bar>x\<bar>) 1 / 2 ^ 53"
      by (simp add: scale2_def)
    also have "\<dots> \<le> \<bar>x\<bar> / 2 ^ 53"
      using expo_lower [of "\<bar>x\<bar>"] assms by (simp add: divide_right_mono)
    finally have "scale2 ?e (1 / 2) \<le> \<bar>x\<bar> / 2 ^ 53" .
    with err have "\<bar>rnd x - x\<bar> \<le> \<bar>x\<bar> / 2 ^ 53" by (rule order_trans)
    then show ?thesis by (rule max.coboundedI1)
  next
    case False
    then have e: "?e = - 1074" by simp
    have "nat 1074 = 1074" by simp
    then have "scale2 (- 1074) (1 / 2) = 1 / 2 / 2 ^ 1074"
      by (simp only: scale2_def) simp
    also have "\<dots> = 1 / 2 ^ Suc 1074"
      by (simp only: power_Suc divide_divide_eq_left)
    also have "Suc 1074 = 1075" by simp
    finally have "scale2 ?e (1 / 2) = 1 / 2 ^ 1075"
      by (simp only: e)
    with err have "\<bar>rnd x - x\<bar> \<le> 1 / 2 ^ 1075" by (simp only:)
    then show ?thesis by (rule max.coboundedI2)
  qed
qed

section \<open>Properties of the unit conversion\<close>

lemma toCelsius_offset: "toCelsius (Number (Fin kelvin_offset)) = Number (Fin 0)"
  by (simp add: toCelsius_def num_sub_def fl_0)

lemma toCelsius_tolerance:
  assumes "\<bar>x\<bar> \<le> 1000000"
  shows "\<exists>r. toCelsius (Number (Fin x)) = Number (Fin r)
           \<and> \<bar>r - (x - 27315 / 100)\<bar> \<le> 1 / 1000000000"
proof -
  let ?y = "x + - kelvin_offset"
  have ybound: "\<bar>?y\<bar> \<le> 1000274"
    using assms by (simp add: kelvin_offset_value)
  have err: "\<bar>rnd ?y - ?y\<bar> \<le> 1 / 8000000000"
  proof (cases "?y = 0")
    case True
    then show ?thesis by (simp add: rnd_def)
  next
    case False
    have "\<bar>?y\<bar> / 2 ^ 53 \<le> 1000274 / 2 ^ 53"
      using ybound by (simp add: divide_right_mono)
    also have "\<dots> \<le> 1 / 8000000000" by simp
    finally have a: "\<bar>?y\<bar> / 2 ^ 53 \<le> 1 / 8000000000" .
    have "(2::real) ^ 33 \<le> 2 ^ 1075" by (rule power_increasing) simp_all
    then have "1 / (2::real) ^ 1075 \<le> 1 / 2 ^ 33"
      by (intro divide_left_mono) simp_all
    also have "\<dots> \<le> 1 / 8000000000" by simp
    finally have b: "1 / (2::real) ^ 1075 \<le> 1 / 8000000000" .
    from rnd_error [OF False] a b show ?thesis
      by (simp only: max.bounded_iff le_max_iff_disj) linarith
  qed
  from err ybound have small: "\<bar>rnd ?y\<bar> \<le> 1000275" by linarith
  have "(2::real) ^ 21 \<le> 2 ^ 1024" by (rule power_increasing) simp_all
  then have big: "(1000276::real) \<le> 2 ^ 1024" by simp
  from small big have "\<not> 2 ^ 1024 \<le> rnd ?y" "\<not> rnd ?y \<le> - (2 ^ 1024)"
    by linarith+
  then have val: "toCelsius (Number (Fin x)) = Number (Fin (rnd ?y))"
    by (simp only: toCelsius_def ToNumber.simps num_sub_def num_neg.simps num_add.simps fl_def
        Let_def if_False)
  have "\<bar>?y - (x - 27315 / 100)\<bar> \<le> 1 / 8000000000"
    by (simp add: kelvin_offset_value)
  with err have "\<bar>rnd ?y - (x - 27315 / 100)\<bar> \<le> 1 / 1000000000" by linarith
  with val show ?thesis by blast
qed

lemma process_example: "processResponse city example_response = Some (example_observation city)"
  by (simp add: processResponse_def example_response_def example_observation_def
      toCelsius_offset)

lemma processResponse_fields:
  assumes "processResponse city response = Some d"
  shows "\<exists>mainv. r_main response = Some mainv \<and> o_temp d = toCelsius (m_temp mainv)
           \<and> o_feels_like d = toCelsius (m_feels_like mainv)"
  using assms
  by (auto simp: processResponse_def split: option.splits list.splits)

text \<open>
  Claim C8.  The conversion applied when the observation is built is \<open>x - 273.15\<close>,
  evaluated in binary64: for a finite \<open>x\<close> it is the rounded difference of \<open>x\<close> and the
  literal, it is exactly 0 at 273.15, it lies within \<open>10\<^sup>-\<^sup>9\<close> of the exact
  \<open>x - 273.15\<close> for every \<open>x\<close> of magnitude up to \<open>10\<^sup>6\<close>, it yields a Number for every
  input (no error case), and both \<open>temp\<close> and \<open>feels_like\<close> of a built observation are
  obtained by it from \<open>main.temp\<close> and \<open>main.feels_like\<close>.
\<close>

theorem toCelsius_conversion:
  "toCelsius (Number (Fin x)) = Number (fl (x - kelvin_offset))
   \<and> toCelsius (Number (Fin kelvin_offset)) = Number (Fin 0)
   \<and> (\<exists>n. toCelsius v = Number n)
   \<and> (\<bar>x\<bar> \<le> 1000000 \<longrightarrow>
        (\<exists>r. toCelsius (Number (Fin x)) = Number (Fin r)
           \<and> \<bar>r - (x - 27315 / 100)\<bar> \<le> 1 / 1000000000))
   \<and> (processResponse city response = Some d \<longrightarrow>
        (\<exists>mainv. r_main response = Some mainv \<and> o_temp d = toCelsius (m_temp mainv)
           \<and> o_feels_like d = toCelsius (m_feels_like mainv)))"
proof -
  have "toCelsius (Number (Fin x)) = Number (fl (x - kelvin_offset))"
    by (simp add: toCelsius_def num_sub_def)
  moreover have "\<exists>n. toCelsius v = Number n"
    by (simp add: toCelsius_def)
  ultimately show ?thesis
    using toCelsius_offset toCelsius_tolerance [of x] processResponse_fields [of city response d]
    by blast
qed

theorem toCelsius_conversion_witness:
  "\<bar>30316 / 100 :: real\<bar> \<le> 1000000
   \<and> processResponse ''Delhi'' example_response = Some (example_observation ''Delhi'')
   \<and> (\<exists>r. toCelsius (Number (Fin (30316 / 100))) = Number (Fin r)
         \<and> \<bar>r - (30316 / 100 - 27315 / 100)\<bar> \<le> 1 / 1000000000)
   \<and> (\<exists>mainv. r_main example_response = Some mainv
         \<and> o_temp (example_observation ''Delhi'') = toCelsius (m_temp mainv)
         \<and> o_feels_like (example_observation ''Delhi'') = toCelsius (m_feels_like mainv))"
proof -
  have small: "\<bar>30316 / 100 :: real\<bar> \<le> 1000000" by simp
  note built = process_example [of "''Delhi''"]
  from toCelsius_conversion [of "30316 / 100" Undefined "''Delhi''" example_response
      "example_observation ''Delhi''"] small built
  show ?thesis by blast
qed

section \<open>Properties of the cache-aside fetch\<close>

lemma fetch_example:
  "fetchWeatherData city now example_provider Map.empty =
     (Resolved (example_observation city),
      [cacheKey city \<mapsto> (JSON_stringify (example_observation city), now + 300)],
      [CacheGet (cacheKey city), ProviderCall city,
       CacheSet (cacheKey city) (JSON_stringify (example_observation city)) 300])"
  by (simp add: fetchWeatherData_def getAsync_def setAsync_def example_provider_def
      process_example)

lemma parse_stringify_field: "json_exact v \<Longrightarrow> parse_field (stringify_field v) = v"
  by (induction v rule: json_exact.induct) simp_all

lemma JSON_roundtrip: "json_exact_observation d \<Longrightarrow> JSON_parse (JSON_stringify d) = d"
  by (simp add: JSON_parse_def JSON_stringify_def json_exact_observation_def
      parse_stringify_field)

lemma fetch_hit:
  "getAsync cache now (cacheKey city) = Some c \<Longrightarrow>
   fetchWeatherData city now provider cache =
     (Resolved (JSON_parse c), cache, [CacheGet (cacheKey city)])"
  by (simp add: fetchWeatherData_def)

lemma fetch_miss_success:
  "getAsync cache now (cacheKey city) = None \<Longrightarrow> provider city = Body (Some response) \<Longrightarrow>
   processResponse city response = Some d \<Longrightarrow>
   fetchWeatherData city now provider cache =
     (Resolved d, setAsync cache now (cacheKey city) (JSON_stringify d) 300,
      [CacheGet (cacheKey city), ProviderCall city,
       CacheSet (cacheKey city) (JSON_stringify d) 300])"
  by (simp add: fetchWeatherData_def)

lemma get_after_set:
  "now \<le> later \<Longrightarrow> later < now + ttl \<Longrightarrow>
   getAsync (setAsync cache now key v ttl) later key = Some v"
  by (simp add: getAsync_def setAsync_def)

lemma cache_writes_fetch:
  "cache_writes (snd (snd (fetchWeatherData city now provider cache))) =
     (if getAsync cache now (cacheKey city) = None
         \<and> (\<exists>response d. provider city = Body (Some response)
               \<and> processResponse city response = Some d)
      then 1 else 0)"
  by (auto simp: fetchWeatherData_def cache_writes_def
      split: option.splits provider_reply.splits)

lemma provider_calls_fetch:
  "provider_calls (snd (snd (fetchWeatherData city now provider cache))) =
     (if getAsync cache now (cacheKey city) = None then 1 else 0)"
  by (auto simp: fetchWeatherData_def provider_calls_def
      split: option.splits provider_reply.splits)

lemma fetch_settles:
  assumes "well_formed_reply city reply" and "provider city = reply"
  shows "fst (fetchWeatherData city now provider cache) \<noteq> Pending"
proof (cases reply)
  case (NetworkError message)
  with assms(2) show ?thesis
    by (simp add: fetchWeatherData_def split: option.splits)
next
  case (Body body)
  with assms(1) obtain response d where "body = Some response"
    and "processResponse city response = Some d"
    by (cases body) auto
  with Body assms(2) show ?thesis
    by (simp add: fetchWeatherData_def split: option.splits)
qed

lemma fetch_targets:
  "ProviderCall c \<in> set (snd (snd (fetchWeatherData city now provider cache))) \<Longrightarrow> c = city"
  by (auto simp: fetchWeatherData_def split: option.splits provider_reply.splits)

section \<open>Properties of the polling sweep\<close>

lemma sweep_targets:
  "ProviderCall c \<in> set (sys_trace (fst (sweep now provider save_error cs s))) \<Longrightarrow>
   ProviderCall c \<in> set (sys_trace s) \<or> c \<in> set cs"
proof (induction cs arbitrary: s)
  case Nil
  then show ?case by simp
next
  case (Cons city rest)
  obtain p cache' trace
    where f: "fetchWeatherData city now provider (sys_cache s) = (p, cache', trace)"
    by (cases "fetchWeatherData city now provider (sys_cache s)")
  have tr: "ProviderCall c \<in> set trace \<Longrightarrow> c = city"
    using fetch_targets [of c city now provider "sys_cache s"] f by simp
  show ?case
  proof (cases p)
    case Pending
    with Cons.prems f tr show ?thesis by auto
  next
    case (Rejected error)
    with Cons.prems f
    have "ProviderCall c \<in> set (sys_trace (fst (sweep now provider save_error rest
            (s\<lparr>sys_cache := cache', sys_trace := sys_trace s @ trace,
               sys_errors := sys_errors s @ [(city, error)]\<rparr>))))"
      by simp
    from Cons.IH [OF this] tr show ?thesis by auto
  next
    case (Resolved data)
    show ?thesis
    proof (cases "save_error data")
      case (Some error)
      with Resolved Cons.prems f
      have "ProviderCall c \<in> set (sys_trace (fst (sweep now provider save_error rest
            (s\<lparr>sys_cache := cache', sys_trace := sys_trace s @ trace,
               sys_saved := sys_saved s,
               sys_errors := sys_errors s @ [(city, error)]\<rparr>))))"
        by (simp add: saveWeatherData_def)
      from Cons.IH [OF this] tr show ?thesis by auto
    next
      case None
      obtain counts' mails
        where a: "checkAndSendAlert city (o_temp data) (sys_alertCounts s) = (counts', mails)"
        by (cases "checkAndSendAlert city (o_temp data) (sys_alertCounts s)")
      with None Resolved Cons.prems f
      have "ProviderCall c \<in> set (sys_trace (fst (sweep now provider save_error rest
                      (s\<lparr>sys_cache := cache', sys_trace := sys_trace s @ trace,
                         sys_saved := sys_saved s @ [data],
                         sys_alertCounts := counts',
                         sys_mails := sys_mails s @ mails\<rparr>))))"
        by (simp add: saveWeatherData_def)
      from Cons.IH [OF this] tr show ?thesis by auto
    qed
  qed
qed

lemma sweep_finishes:
  "list_all (\<lambda>c. well_formed_reply c (provider c)) cs \<Longrightarrow>
   snd (sweep now provider save_error cs s) = Finished
   \<and> length (sys_saved (fst (sweep now provider save_error cs s)))
       + length (sys_errors (fst (sweep now provider save_error cs s)))
     = length (sys_saved s) + length (sys_errors s) + length cs"
proof (induction cs arbitrary: s)
  case Nil
  then show ?case by simp
next
  case (Cons city rest)
  from Cons.prems have wf: "well_formed_reply city (provider city)"
    and rest: "list_all (\<lambda>c. well_formed_reply c (provider c)) rest"
    by simp_all
  note ih = Cons.IH [OF rest]
  obtain p cache' trace
    where f: "fetchWeatherData city now provider (sys_cache s) = (p, cache', trace)"
    by (cases "fetchWeatherData city now provider (sys_cache s)")
  have "fst (fetchWeatherData city now provider (sys_cache s)) \<noteq> Pending"
    using wf by (rule fetch_settles) simp
  with f have np: "p \<noteq> Pending" by simp
  show ?case
  proof (cases p)
    case Pending
    with np show ?thesis by simp
  next
    case (Rejected error)
    with f ih [of "s\<lparr>sys_cache := cache', sys_trace := sys_trace s @ trace,
               sys_errors := sys_errors s @ [(city, error)]\<rparr>"]
    show ?thesis by simp
  next
    case (Resolved data)
    show ?thesis
    proof (cases "save_error data")
      case (Some error)
      with Resolved f ih [of "s\<lparr>sys_cache := cache', sys_trace := sys_trace s @ trace,
               sys_saved := sys_saved s,
               sys_errors := sys_errors s @ [(city, error)]\<rparr>"]
      show ?thesis by (simp add: saveWeatherData_def)
    next
      case None
      obtain counts' mails
        where a: "checkAndSendAlert city (o_temp data) (sys_alertCounts s) = (counts', mails)"
        by (cases "checkAndSendAlert city (o_temp data) (sys_alertCounts s)")
      with None Resolved f ih [of "s\<lparr>sys_cache := cache', sys_trace := sys_trace s @ trace,
                         sys_saved := sys_saved s @ [data],
                         sys_alertCounts := counts',
                         sys_mails := sys_mails s @ mails\<rparr>"]
      show ?thesis by (simp add: saveWeatherData_def)
    qed
  qed
qed

section \<open>Locations outside the monitored set\<close>

text \<open>
  Claim C3 (as stated, for \<open>fetch\<close>): \<open>fetchWeatherData\<close> makes no membership check.
  For Paris, which is not monitored, a cache miss calls the provider, and the call
  resolves with an observation and writes the cache.
\<close>

theorem fetch_unmonitored_counterexample:
  "''Paris'' \<notin> set cities \<and>
   fetchWeatherData ''Paris'' 0 example_provider Map.empty =
     (Resolved (example_observation ''Paris''),
      [''weather:Paris'' \<mapsto> (JSON_stringify (example_observation ''Paris''), 300)],
      [CacheGet ''weather:Paris'', ProviderCall ''Paris'',
       CacheSet ''weather:Paris'' (JSON_stringify (example_observation ''Paris'')) 300])"
  by (simp add: fetch_example cities_def cacheKey_def)

text \<open>
  Claim C3 (amended).  For every location \<open>L\<close> outside the monitored set, the request
  for the latest observation is answered with status 400 and \<open>Invalid city\<close>, whatever
  the store would return (the store is not consulted); and a sweep of the scheduler,
  the only caller of \<open>fetchWeatherData\<close>, adds no provider call for \<open>L\<close>.
\<close>

theorem invalid_location_rejected:
  assumes "L \<notin> set cities"
  shows "api_weather L findLatest = ErrorStatus 400 ''Invalid city''
       \<and> (ProviderCall L \<notin> set (sys_trace s) \<longrightarrow>
            ProviderCall L
              \<notin> set (sys_trace (fst (sweep now provider save_error cities s))))"
proof -
  have "api_weather L findLatest = ErrorStatus 400 ''Invalid city''"
    using assms by (simp add: api_weather_def)
  moreover have "ProviderCall L \<notin> set (sys_trace s) \<longrightarrow>
      ProviderCall L \<notin> set (sys_trace (fst (sweep now provider save_error cities s)))"
    using assms sweep_targets [of L now provider save_error cities s] by blast
  ultimately show ?thesis by (rule conjI)
qed

theorem invalid_location_rejected_witness:
  "''Paris'' \<notin> set cities
   \<and> ProviderCall ''Paris'' \<notin> set (sys_trace initial_system)
   \<and> api_weather ''Paris'' no_documents = ErrorStatus 400 ''Invalid city''
   \<and> ProviderCall ''Paris''
       \<notin> set (sys_trace (fst (sweep 0 example_provider accepting_store cities initial_system)))"
proof -
  have out: "''Paris'' \<notin> set cities"
    by (simp add: cities_def)
  have fresh: "ProviderCall ''Paris'' \<notin> set (sys_trace initial_system)"
    by (simp add: initial_system_def)
  from invalid_location_rejected
    [OF out, of no_documents initial_system 0 example_provider accepting_store] out fresh
  show ?thesis by blast
qed

section \<open>Provider failures\<close>

text \<open>
  Claim C4, at the failing input.  On a cache miss the provider answers with its JSON
  error object, which has no \<open>weather\<close>, \<open>main\<close> or \<open>wind\<close>.  The handler throws while
  building the observation, and the promise of \<open>fetchWeatherData\<close> is never settled: it
  is not rejected with any error.
\<close>

theorem malformed_payload_never_settles:
  "fetchWeatherData ''Delhi'' 0 error_body_provider Map.empty =
     (Pending, Map.empty, [CacheGet ''weather:Delhi'', ProviderCall ''Delhi''])"
  by (simp add: fetchWeatherData_def getAsync_def error_body_provider_def error_response_def
      processResponse_def cacheKey_def)

text \<open>
  The network half of the same contract holds: on a cache miss, an \<open>error\<close> event of the
  request rejects the call with \<open>Error: \<close> followed by the cause, after exactly one
  provider call (no retry) and without touching the cache.
\<close>

theorem network_error_rejects:
  assumes "getAsync cache now (cacheKey city) = None"
    and "provider city = NetworkError message"
  shows "fetchWeatherData city now provider cache =
           (Rejected (''Error: '' @ message), cache,
            [CacheGet (cacheKey city), ProviderCall city])
       \<and> provider_calls (snd (snd (fetchWeatherData city now provider cache))) = 1"
proof -
  from assms have "fetchWeatherData city now provider cache =
           (Rejected (''Error: '' @ message), cache,
            [CacheGet (cacheKey city), ProviderCall city])"
    by (simp add: fetchWeatherData_def)
  moreover from assms(1)
  have "provider_calls (snd (snd (fetchWeatherData city now provider cache))) = 1"
    by (simp add: provider_calls_fetch)
  ultimately show ?thesis by (rule conjI)
qed

theorem network_error_rejects_witness:
  "getAsync Map.empty 0 (cacheKey ''Delhi'') = None
   \<and> unreachable_provider ''Delhi'' = NetworkError ''connect ETIMEDOUT''
   \<and> fetchWeatherData ''Delhi'' 0 unreachable_provider Map.empty =
       (Rejected ''Error: connect ETIMEDOUT'', Map.empty,
        [CacheGet ''weather:Delhi'', ProviderCall ''Delhi''])"
proof -
  have miss: "getAsync Map.empty 0 (cacheKey ''Delhi'') = None"
    by (simp add: getAsync_def)
  have reply: "unreachable_provider ''Delhi'' = NetworkError ''connect ETIMEDOUT''"
    by (simp add: unreachable_provider_def)
  from network_error_rejects
    [where provider = unreachable_provider and city = "''Delhi''", OF miss reply] miss reply
  show ?thesis
    by (simp add: cacheKey_def)
qed

section \<open>The cache round trip\<close>

text \<open>
  Claim C5 (as stated).  A cache miss whose provider call fails performs no cache write.
  And where the reply lacks \<open>main.temp\<close>, the first call resolves with \<open>temp\<close> NaN, the
  cache holds \<open>null\<close> for it, and the second call, one second later, resolves with \<open>temp\<close>
  \<open>null\<close>: not the identical observation.
\<close>

theorem cache_write_counterexample:
  "getAsync Map.empty 0 (cacheKey ''Delhi'') = None \<and>
   fetchWeatherData ''Delhi'' 0 unreachable_provider Map.empty =
     (Rejected ''Error: connect ETIMEDOUT'', Map.empty,
      [CacheGet ''weather:Delhi'', ProviderCall ''Delhi'']) \<and>
   cache_writes [CacheGet ''weather:Delhi'', ProviderCall ''Delhi''] = 0 \<and>
   fst (fetchWeatherData ''Delhi'' 0 partial_provider Map.empty)
     = Resolved (partial_observation (Number NaN)) \<and>
   fst (fetchWeatherData ''Delhi'' 1 partial_provider
          (fst (snd (fetchWeatherData ''Delhi'' 0 partial_provider Map.empty))))
     = Resolved (partial_observation Null) \<and>
   partial_observation (Number NaN) \<noteq> partial_observation Null"
  by (simp add: fetchWeatherData_def getAsync_def setAsync_def unreachable_provider_def
      cacheKey_def cache_writes_def partial_provider_def partial_response_def
      processResponse_def toCelsius_def num_sub_def partial_observation_def
      JSON_stringify_def JSON_parse_def)

text \<open>
  Claim C5 (amended).  After a cache miss at time \<open>t1\<close> on which the provider's reply
  is built into an observation \<open>d\<close> with finite numeric properties, the call resolves
  with \<open>d\<close> after one provider call and one cache write; a second call for the same city
  at any time \<open>t2\<close> with \<open>t1 \<le> t2 < t1 + 300\<close> resolves with the identical \<open>d\<close>, whatever
  the provider would answer, with the cache read as its only effect (no provider call,
  no cache write).  In general a call writes the cache exactly once when it misses and
  the provider's reply is built into an observation, and not at all otherwise.
\<close>

theorem cache_roundtrip:
  assumes "getAsync cache t1 (cacheKey city) = None"
    and "provider city = Body (Some response)"
    and "processResponse city response = Some d"
    and "json_exact_observation d"
    and "t1 \<le> t2" and "t2 < t1 + 300"
  shows "fetchWeatherData city t1 provider cache =
           (Resolved d, setAsync cache t1 (cacheKey city) (JSON_stringify d) 300,
            [CacheGet (cacheKey city), ProviderCall city,
             CacheSet (cacheKey city) (JSON_stringify d) 300])
       \<and> fetchWeatherData city t2 later_provider
            (setAsync cache t1 (cacheKey city) (JSON_stringify d) 300) =
           (Resolved d, setAsync cache t1 (cacheKey city) (JSON_stringify d) 300,
            [CacheGet (cacheKey city)])
       \<and> cache_writes (snd (snd (fetchWeatherData city any_time any_provider any_cache))) =
           (if getAsync any_cache any_time (cacheKey city) = None
               \<and> (\<exists>response d. any_provider city = Body (Some response)
                     \<and> processResponse city response = Some d)
            then 1 else 0)"
proof -
  have first: "fetchWeatherData city t1 provider cache =
           (Resolved d, setAsync cache t1 (cacheKey city) (JSON_stringify d) 300,
            [CacheGet (cacheKey city), ProviderCall city,
             CacheSet (cacheKey city) (JSON_stringify d) 300])"
    using assms(1-3) by (rule fetch_miss_success)
  have "getAsync (setAsync cache t1 (cacheKey city) (JSON_stringify d) 300) t2 (cacheKey city)
          = Some (JSON_stringify d)"
    using assms(5,6) by (rule get_after_set)
  then have second: "fetchWeatherData city t2 later_provider
            (setAsync cache t1 (cacheKey city) (JSON_stringify d) 300) =
           (Resolved d, setAsync cache t1 (cacheKey city) (JSON_stringify d) 300,
            [CacheGet (cacheKey city)])"
    by (simp add: fetch_hit JSON_roundtrip [OF assms(4)])
  from first second cache_writes_fetch [of city any_time any_provider any_cache] show ?thesis
    by (intro conjI)
qed

theorem cache_roundtrip_witness:
  "getAsync Map.empty 1000 (cacheKey ''Delhi'') = None
   \<and> example_provider ''Delhi'' = Body (Some example_response)
   \<and> processResponse ''Delhi'' example_response = Some (example_observation ''Delhi'')
   \<and> json_exact_observation (example_observation ''Delhi'')
   \<and> (1000::nat) \<le> 1299 \<and> (1299::nat) < 1000 + 300
   \<and> fetchWeatherData ''Delhi'' 1299 unreachable_provider
        (setAsync Map.empty 1000 (cacheKey ''Delhi'')
           (JSON_stringify (example_observation ''Delhi'')) 300) =
       (Resolved (example_observation ''Delhi''),
        setAsync Map.empty 1000 (cacheKey ''Delhi'')
           (JSON_stringify (example_observation ''Delhi'')) 300,
        [CacheGet (cacheKey ''Delhi'')])"
proof -
  have miss: "getAsync Map.empty 1000 (cacheKey ''Delhi'') = None"
    by (simp add: getAsync_def)
  have reply: "example_provider ''Delhi'' = Body (Some example_response)"
    by (simp add: example_provider_def)
  note built = process_example [of "''Delhi''"]
  have exact: "json_exact_observation (example_observation ''Delhi'')"
    by (simp add: json_exact_observation_def example_observation_def)
  have t: "(1000::nat) \<le> 1299" "(1299::nat) < 1000 + 300"
    by simp_all
  from cache_roundtrip
    [where provider = example_provider and city = "''Delhi''" and later_provider = unreachable_provider,
     OF miss reply built exact t]
  have "fetchWeatherData ''Delhi'' 1299 unreachable_provider
        (setAsync Map.empty 1000 (cacheKey ''Delhi'')
           (JSON_stringify (example_observation ''Delhi'')) 300) =
       (Resolved (example_observation ''Delhi''),
        setAsync Map.empty 1000 (cacheKey ''Delhi'')
           (JSON_stringify (example_observation ''Delhi'')) 300,
        [CacheGet (cacheKey ''Delhi'')])"
    by blast
  with miss reply built exact t show ?thesis
    by (intro conjI)
qed

section \<open>Failure isolation in the sweep\<close>

text \<open>
  Claim C9, at the failing input.  The provider answers Delhi, the first city of the
  sweep, with its JSON error object and every other city with a complete reply, and the
  store accepts every document.  The fetch for Delhi never settles, so the sweep does
  not go on: nothing is persisted and the provider is not even called for Mumbai.
\<close>

theorem sweep_stuck_on_malformed:
  "snd (sweep 0 delhi_error_provider accepting_store cities initial_system) = Stuck ''Delhi''
   \<and> sys_saved (fst (sweep 0 delhi_error_provider accepting_store cities initial_system)) = []
   \<and> sys_errors (fst (sweep 0 delhi_error_provider accepting_store cities initial_system)) = []
   \<and> sys_trace (fst (sweep 0 delhi_error_provider accepting_store cities initial_system))
       = [CacheGet ''weather:Delhi'', ProviderCall ''Delhi'']"
  by (simp add: cities_def initial_system_def fetchWeatherData_def getAsync_def
      delhi_error_provider_def error_response_def processResponse_def cacheKey_def)

text \<open>
  Where every reply is an \<open>error\<close> event or a body the handler can process, the
  isolation holds: the sweep reaches its end, and each of its cities ends either
  persisted or with its error logged, whatever failed for the others.
\<close>

theorem sweep_isolation:
  assumes "list_all (\<lambda>c. well_formed_reply c (provider c)) cs"
  shows "snd (sweep now provider save_error cs s) = Finished
       \<and> length (sys_saved (fst (sweep now provider save_error cs s)))
           + length (sys_errors (fst (sweep now provider save_error cs s)))
         = length (sys_saved s) + length (sys_errors s) + length cs"
  using assms by (rule sweep_finishes)

lemma sweep_delhi_down:
  "sweep 0 delhi_down_provider accepting_store cities initial_system =
     (\<lparr>sys_cache =
          [''weather:Mumbai'' \<mapsto> (JSON_stringify (example_observation ''Mumbai''), 300),
           ''weather:Chennai'' \<mapsto> (JSON_stringify (example_observation ''Chennai''), 300),
           ''weather:Bangalore'' \<mapsto> (JSON_stringify (example_observation ''Bangalore''), 300),
           ''weather:Kolkata'' \<mapsto> (JSON_stringify (example_observation ''Kolkata''), 300),
           ''weather:Hyderabad'' \<mapsto> (JSON_stringify (example_observation ''Hyderabad''), 300)],
       sys_saved = map example_observation
          [''Mumbai'', ''Chennai'', ''Bangalore'', ''Kolkata'', ''Hyderabad''],
       sys_alertCounts = [''Mumbai'' \<mapsto> 0, ''Chennai'' \<mapsto> 0, ''Bangalore'' \<mapsto> 0,
          ''Kolkata'' \<mapsto> 0, ''Hyderabad'' \<mapsto> 0],
       sys_mails = [],
       sys_errors = [(''Delhi'', ''Error: connect ETIMEDOUT'')],
       sys_trace = sys_trace (fst (sweep 0 delhi_down_provider accepting_store cities
          initial_system))\<rparr>,
      Finished)"
  by (simp add: cities_def initial_system_def fetchWeatherData_def getAsync_def setAsync_def
      delhi_down_provider_def process_example cacheKey_def accepting_store_def
      saveWeatherData_def checkAndSendAlert_def example_observation_def alertThreshold_def)

theorem sweep_isolation_witness:
  "list_all (\<lambda>c. well_formed_reply c (delhi_down_provider c)) cities
   \<and> snd (sweep 0 delhi_down_provider accepting_store cities initial_system) = Finished
   \<and> sys_errors (fst (sweep 0 delhi_down_provider accepting_store cities initial_system))
       = [(''Delhi'', ''Error: connect ETIMEDOUT'')]
   \<and> sys_saved (fst (sweep 0 delhi_down_provider accepting_store cities initial_system))
       = map example_observation [''Mumbai'', ''Chennai'', ''Bangalore'', ''Kolkata'', ''Hyderabad'']"
proof -
  have replies: "list_all (\<lambda>c. well_formed_reply c (delhi_down_provider c)) cities"
    by (simp add: cities_def delhi_down_provider_def process_example)
  from sweep_isolation [OF replies, of 0 accepting_store initial_system]
  have "snd (sweep 0 delhi_down_provider accepting_store cities initial_system) = Finished"
    by (rule conjunct1)
  moreover have "sys_errors (fst (sweep 0 delhi_down_provider accepting_store cities initial_system))
       = [(''Delhi'', ''Error: connect ETIMEDOUT'')]"
    by (subst sweep_delhi_down) simp
  moreover have "sys_saved (fst (sweep 0 delhi_down_provider accepting_store cities initial_system))
       = map example_observation [''Mumbai'', ''Chennai'', ''Bangalore'', ''Kolkata'', ''Hyderabad'']"
    by (subst sweep_delhi_down) simp
  ultimately show ?thesis using replies by (intro conjI)
qed

section \<open>Properties of the most frequent condition\<close>

lemma last_filter_last: "xs \<noteq> [] \<Longrightarrow> P (last xs) \<Longrightarrow> last (filter P xs) = last xs"
  by (induction xs) (auto simp: filter_empty_conv)

lemma sorted_key_last_max:
  "sorted (map f ys) \<Longrightarrow> y \<in> set ys \<Longrightarrow> f y \<le> f (last ys)"
proof (induction ys)
  case Nil
  then show ?case by simp
next
  case (Cons a ys)
  then show ?case by (cases "ys = []") auto
qed

lemma sort_key_last:
  fixes f :: "'a \<Rightarrow> nat"
  assumes "xs \<noteq> []"
  shows "last (sort_key f xs) \<in> set xs"
    and "\<forall>y\<in>set xs. f y \<le> f (last (sort_key f xs))"
    and "last (sort_key f xs) = last (filter (\<lambda>y. f y = f (last (sort_key f xs))) xs)"
proof -
  let ?ys = "sort_key f xs"
  have ne: "?ys \<noteq> []" using assms by (metis length_sort length_0_conv)
  then have "last ?ys \<in> set ?ys" by (rule last_in_set)
  then show "last ?ys \<in> set xs" by (simp only: set_sort)
  have "sorted (map f ?ys)" by simp
  then have "\<forall>y\<in>set ?ys. f y \<le> f (last ?ys)"
    by (blast intro: sorted_key_last_max)
  then show "\<forall>y\<in>set xs. f y \<le> f (last ?ys)" by simp
  have "last ?ys = last (filter (\<lambda>y. f y = f (last ?ys)) ?ys)"
    using ne by (simp add: last_filter_last)
  also have "\<dots> = last (filter (\<lambda>y. f y = f (last ?ys)) xs)"
    by (simp only: sort_key_stable)
  finally show "last ?ys = last (filter (\<lambda>y. f y = f (last ?ys)) xs)" .
qed

lemma last_most_frequent_sorted:
  assumes "arr \<noteq> []"
  shows "last_most_frequent arr = last (sort_key (occurrences arr) arr)"
proof -
  let ?f = "occurrences arr"
  let ?x = "last (sort_key ?f arr)"
  note facts = sort_key_last [OF assms, of ?f]
  have "Max (?f ` set arr) = ?f ?x"
    using facts(1,2) by (intro Max_eqI) auto
  then show ?thesis
    unfolding last_most_frequent_def by (simp only: facts(3) [symmetric])
qed

lemma last_most_frequent_facts:
  assumes "arr \<noteq> []"
  shows "last_most_frequent arr \<in> set arr"
    and "\<forall>y\<in>set arr. occurrences arr y \<le> occurrences arr (last_most_frequent arr)"
    and "\<exists>before after. arr = before @ last_most_frequent arr # after
           \<and> (\<forall>y\<in>set after. occurrences arr y < occurrences arr (last_most_frequent arr))"
proof -
  let ?f = "occurrences arr"
  let ?x = "last (sort_key ?f arr)"
  note facts = sort_key_last [OF assms, of ?f]
  have mem: "?x \<in> set arr" by (rule facts(1))
  have top: "\<forall>y\<in>set arr. ?f y \<le> ?f ?x" by (rule facts(2))
  have lastx: "?x = last (filter (\<lambda>y. ?f y = ?f ?x) arr)" by (rule facts(3))
  have dom: "last_most_frequent arr = ?x"
    using assms by (rule last_most_frequent_sorted)
  have "\<exists>y\<in>set arr. ?f y = ?f ?x" using mem by blast
  then obtain before z after where split: "arr = before @ z # after" and pz: "?f z = ?f ?x"
    and rest: "\<forall>y\<in>set after. ?f y \<noteq> ?f ?x"
    by (rule split_list_last_propE)
  have "filter (\<lambda>y. ?f y = ?f ?x) after = []"
    using rest by (simp add: filter_empty_conv)
  then have "last (filter (\<lambda>y. ?f y = ?f ?x) arr) = z"
    using split pz by simp
  with lastx have zx: "z = ?x" by simp
  have after: "\<forall>y\<in>set after. ?f y < ?f ?x"
  proof
    fix y assume y: "y \<in> set after"
    then have "y \<in> set arr" using split by simp
    with top have "?f y \<le> ?f ?x" by blast
    moreover from rest y have "?f y \<noteq> ?f ?x" by blast
    ultimately show "?f y < ?f ?x" by simp
  qed
  have split': "arr = before @ ?x # after"
    using split zx by (simp only:)
  from mem show "last_most_frequent arr \<in> set arr"
    unfolding dom .
  from top show "\<forall>y\<in>set arr. ?f y \<le> ?f (last_most_frequent arr)"
    unfolding dom .
  from split' after
  have "\<exists>before after. arr = before @ ?x # after \<and> (\<forall>y\<in>set after. ?f y < ?f ?x)"
    by blast
  then show "\<exists>before after. arr = before @ last_most_frequent arr # after
      \<and> (\<forall>y\<in>set after. ?f y < ?f (last_most_frequent arr))"
    unfolding dom .
qed

lemma pop_last: "arr \<noteq> [] \<Longrightarrow> pop arr = last arr"
  by (cases arr) (simp_all add: pop_def)

text \<open>An array without \<open>undefined\<close> element: the comparator sees all of it.\<close>

lemma sort_by_occurrences_defined:
  "sort_by_occurrences (map Some conds)
     = sort_key (occurrences (map Some conds)) (map Some conds)"
  by (simp add: sort_by_occurrences_def filter_map comp_def)

lemma occurrences_Some: "occurrences (map Some conds) (Some c) = occurrences conds c"
  by (simp add: occurrences_def filter_map comp_def)

lemma last_most_frequent_Some:
  assumes "conds \<noteq> []"
  shows "last_most_frequent (map Some conds) = Some (last_most_frequent conds)"
proof -
  let ?top = "filter (\<lambda>c. occurrences conds c = Max (occurrences conds ` set conds)) conds"
  have image: "occurrences (map Some conds) ` set (map Some conds) = occurrences conds ` set conds"
    by (simp add: image_image occurrences_Some)
  have "last_most_frequent (map Some conds) = last (map Some ?top)"
    unfolding last_most_frequent_def image
    by (simp add: filter_map comp_def occurrences_Some)
  moreover have "?top \<noteq> []"
  proof -
    have "Max (occurrences conds ` set conds) \<in> occurrences conds ` set conds"
      using assms by (intro Max_in) auto
    then show ?thesis by (auto simp: filter_empty_conv)
  qed
  ultimately show ?thesis
    unfolding last_most_frequent_def by (simp add: last_map)
qed

lemma getMostFrequent_defined:
  assumes "conds \<noteq> []"
  shows "getMostFrequent (map Some conds) = Some (last_most_frequent conds)"
proof -
  let ?arr = "map Some conds"
  have ne: "?arr \<noteq> []" using assms by simp
  then have "sort_key (occurrences ?arr) ?arr \<noteq> []"
    by (metis length_sort length_0_conv)
  then have "getMostFrequent ?arr = last (sort_key (occurrences ?arr) ?arr)"
    unfolding getMostFrequent_def sort_by_occurrences_defined by (rule pop_last)
  also have "\<dots> = last_most_frequent ?arr"
    using ne by (rule last_most_frequent_sorted [symmetric])
  also have "\<dots> = Some (last_most_frequent conds)"
    using assms by (rule last_most_frequent_Some)
  finally show ?thesis .
qed

text \<open>
  An array with an \<open>undefined\<close> element: the sort puts it last, and \<open>pop\<close> returns
  \<open>undefined\<close> whatever the numbers of occurrences.
\<close>

lemma getMostFrequent_undefined:
  assumes "None \<in> set arr"
  shows "getMostFrequent arr = None"
proof -
  let ?u = "filter (\<lambda>v. v = None) arr"
  have ne: "?u \<noteq> []"
    using assms by (auto simp: filter_empty_conv)
  then have "last ?u \<in> set ?u" by (rule last_in_set)
  then have none: "last ?u = None" by simp
  have "getMostFrequent arr = last (sort_by_occurrences arr)"
    unfolding getMostFrequent_def using ne
    by (intro pop_last) (simp add: sort_by_occurrences_def)
  also have "\<dots> = last ?u"
    using ne by (simp add: sort_by_occurrences_def)
  finally show ?thesis using none by simp
qed

lemma getMostFrequent_empty: "getMostFrequent [] = None"
  by (simp add: getMostFrequent_def pop_def sort_by_occurrences_def)

lemma getMostFrequent_examples:
  "getMostFrequent [Some ''Rain'', Some ''Clear'', Some ''Clear'', Some ''Rain'', Some ''Haze'']
     = Some ''Rain''
   \<and> getMostFrequent [Some ''Rain'', Some ''Clear''] = Some ''Clear''
   \<and> getMostFrequent [Some ''Rain'', None, Some ''Rain''] = None"
  by (simp add: getMostFrequent_def pop_def sort_by_occurrences_def occurrences_def)

section \<open>Properties of the summary window\<close>

text \<open>
  On a host at a fixed offset the window is the 24 hours of the local day; on the day a
  zone moves its clocks forward it is the 23 hours of that local day.
\<close>

lemma india_window:
  "startOfDay india_host 1700000000000 = 1699986600000
   \<and> endOfDay india_host 1700000000000 = 1700072999999"
  by (simp add: startOfDay_def endOfDay_def setHours_def india_host_def fixed_offset_def
      Day_def MakeDate_def MakeTime_def msPerDay_def)

lemma berlin_window:
  "startOfDay berlin_host 1711886400000 = 1711839600000
   \<and> endOfDay berlin_host 1711886400000 = 1711922399999
   \<and> endOfDay berlin_host 1711886400000 - startOfDay berlin_host 1711886400000 + 1
       = 23 * 3600000"
  by (simp add: startOfDay_def endOfDay_def setHours_def berlin_host_def
      Day_def MakeDate_def MakeTime_def msPerDay_def)

lemma delhi_window:
  "find_window india_host ''Delhi'' 1700000000000 delhi_day =
     [delhi_reading (Some ''Rain'') 1700000000000,
      delhi_reading (Some ''Clear'') 1700000300000,
      delhi_reading (Some ''Clear'') 1700000600000,
      delhi_reading (Some ''Rain'') 1700000900000,
      delhi_reading (Some ''Haze'') 1700001200000]"
  by (simp add: find_window_def india_window delhi_day_def delhi_reading_def
      mumbai_reading_def)

lemma delhi_pair_window:
  "find_window india_host ''Delhi'' 1700000000000 delhi_pair = delhi_pair"
  by (simp add: find_window_def india_window delhi_pair_def delhi_reading_def)

lemma delhi_untitled_window:
  "find_window india_host ''Delhi'' 1700000000000 delhi_untitled = delhi_untitled"
  by (simp add: find_window_def india_window delhi_untitled_def delhi_reading_def)

section \<open>The dominant condition of the summary\<close>

text \<open>
  Claim C6.  For every host, city, date and store whose window is not empty and holds
  documents that all carry a condition, \<open>calculateDailySummary\<close> returns a summary whose
  \<open>dominantWeather\<close> is the most frequent condition of the window met last: it is a
  condition of the window that occurs at least as often as every other, and the window's
  conditions split at an occurrence of it after which every condition occurs strictly
  less often (among the most frequent conditions the one met last wins, not the first).
\<close>

theorem dominant_condition_last_wins:
  assumes "map d_main (find_window host city date documents) = map Some conds"
    and "conds \<noteq> []"
  shows "\<exists>s. calculateDailySummary host city date (Inr documents) = Inr s
           \<and> dominantWeather s = Some (last_most_frequent conds)
           \<and> last_most_frequent conds \<in> set conds
           \<and> (\<forall>y\<in>set conds. occurrences conds y \<le> occurrences conds (last_most_frequent conds))
           \<and> (\<exists>before after. conds = before @ last_most_frequent conds # after
                 \<and> (\<forall>y\<in>set after.
                       occurrences conds y < occurrences conds (last_most_frequent conds)))"
proof -
  have "getMostFrequent (map d_main (find_window host city date documents))
      = Some (last_most_frequent conds)"
    unfolding assms(1) using assms(2) by (rule getMostFrequent_defined)
  then have "\<exists>s. calculateDailySummary host city date (Inr documents) = Inr s
      \<and> dominantWeather s = Some (last_most_frequent conds)"
    by (simp add: calculateDailySummary_def Let_def)
  with last_most_frequent_facts [OF assms(2)] show ?thesis
    by blast
qed

theorem dominant_condition_last_wins_witness:
  "map d_main (find_window india_host ''Delhi'' 1700000000000 delhi_day)
     = map Some [''Rain'', ''Clear'', ''Clear'', ''Rain'', ''Haze'']
   \<and> [''Rain'', ''Clear'', ''Clear'', ''Rain'', ''Haze''] \<noteq> []
   \<and> (\<exists>s. calculateDailySummary india_host ''Delhi'' 1700000000000 (Inr delhi_day) = Inr s
           \<and> dominantWeather s = Some ''Rain'')
   \<and> map d_main (find_window india_host ''Delhi'' 1700000000000 delhi_pair)
     = map Some [''Rain'', ''Clear'']
   \<and> [''Rain'', ''Clear''] \<noteq> []
   \<and> (\<exists>s. calculateDailySummary india_host ''Delhi'' 1700000000000 (Inr delhi_pair) = Inr s
           \<and> dominantWeather s = Some ''Clear'')"
proof -
  have conds: "map d_main (find_window india_host ''Delhi'' 1700000000000 delhi_day)
      = map Some [''Rain'', ''Clear'', ''Clear'', ''Rain'', ''Haze'']"
    by (simp add: delhi_window delhi_reading_def)
  have ne: "[''Rain'', ''Clear'', ''Clear'', ''Rain'', ''Haze''] \<noteq> []" by simp
  have winner: "last_most_frequent [''Rain'', ''Clear'', ''Clear'', ''Rain'', ''Haze''] = ''Rain''"
    by (simp add: last_most_frequent_def occurrences_def)
  have pair: "map d_main (find_window india_host ''Delhi'' 1700000000000 delhi_pair)
      = map Some [''Rain'', ''Clear'']"
    by (simp add: delhi_pair_window) (simp add: delhi_pair_def delhi_reading_def)
  have pair_ne: "[''Rain'', ''Clear''] \<noteq> []" by simp
  have pair_winner: "last_most_frequent [''Rain'', ''Clear''] = ''Clear''"
    by (simp add: last_most_frequent_def occurrences_def)
  from dominant_condition_last_wins [OF conds ne]
  have day: "\<exists>s. calculateDailySummary india_host ''Delhi'' 1700000000000 (Inr delhi_day) = Inr s
      \<and> dominantWeather s = Some ''Rain''"
    unfolding winner by blast
  from dominant_condition_last_wins [OF pair pair_ne]
  have two: "\<exists>s. calculateDailySummary india_host ''Delhi'' 1700000000000 (Inr delhi_pair) = Inr s
      \<and> dominantWeather s = Some ''Clear''"
    unfolding pair_winner by blast
  from conds ne day pair pair_ne two show ?thesis by (intro conjI)
qed

text \<open>
  The same summary by evaluation of \<open>calculateDailySummary\<close>: the tie between Rain and
  Clear goes to Rain, whose last occurrence is the later one.
\<close>

lemma dominant_condition_example:
  "map_sum id dominantWeather
     (calculateDailySummary india_host ''Delhi'' 1700000000000 (Inr delhi_day))
   = Inr (Some ''Rain'')"
  by (simp add: calculateDailySummary_def Let_def delhi_window delhi_reading_def
      getMostFrequent_def pop_def sort_by_occurrences_def occurrences_def)

text \<open>
  A window with a document saved without \<open>main\<close> has no dominant condition, whatever the
  other documents hold.
\<close>

lemma dominant_condition_undefined_example:
  "map_sum id dominantWeather
     (calculateDailySummary india_host ''Delhi'' 1700000000000 (Inr delhi_untitled))
   = Inr None"
  by (simp add: calculateDailySummary_def Let_def delhi_untitled_window)
    (simp add: delhi_untitled_def delhi_reading_def getMostFrequent_def pop_def
      sort_by_occurrences_def occurrences_def)

lemma dominant_condition_undefined:
  assumes "None \<in> d_main ` set (find_window host city date documents)"
  shows "\<exists>s. calculateDailySummary host city date (Inr documents) = Inr s
           \<and> dominantWeather s = None"
proof -
  from assms have "None \<in> set (map d_main (find_window host city date documents))"
    by simp
  then have "getMostFrequent (map d_main (find_window host city date documents)) = None"
    by (rule getMostFrequent_undefined)
  then show ?thesis
    by (simp add: calculateDailySummary_def Let_def)
qed

section \<open>Properties of the daily summary\<close>

text \<open>
  For every host, city and date whose window holds no stored document,
  \<open>calculateDailySummary\<close> has no guard and no error of its own: it returns the summary of
  that city and day with \<open>avgTemp\<close>, \<open>avgHumidity\<close> and \<open>avgWindSpeed\<close> NaN (the quotient of 0
  by 0), \<open>maxTemp\<close> \<open>-Infinity\<close>, \<open>minTemp\<close> \<open>Infinity\<close> and \<open>dominantWeather\<close> \<open>undefined\<close>.
\<close>

lemma empty_window_summary:
  assumes "find_window host city date documents = []"
  shows "calculateDailySummary host city date (Inr documents) =
           Inr \<lparr>s_city = city, s_date = startOfDay host date, avgTemp = NaN, maxTemp = NegInf,
                minTemp = PosInf, dominantWeather = None, avgHumidity = NaN,
                avgWindSpeed = NaN\<rparr>"
  using assms
  by (simp add: calculateDailySummary_def Math_max_def Math_min_def getMostFrequent_empty
      array_length_def)

text \<open>
  Claim C2, at the failing input.  The store holds a Mumbai and a Delhi reading and none
  of Bangalore.  The summary of Bangalore for that day is not refused: the call returns a
  summary whose averages are NaN, whose maximum is \<open>-Infinity\<close>, whose minimum is
  \<open>Infinity\<close> and whose dominant condition is \<open>undefined\<close>.
\<close>

theorem empty_window_returns_NaN:
  "calculateDailySummary india_host ''Bangalore'' 1700000000000
     (Inr [mumbai_reading, stable_reading]) =
     Inr \<lparr>s_city = ''Bangalore'', s_date = 1699986600000, avgTemp = NaN, maxTemp = NegInf,
          minTemp = PosInf, dominantWeather = None, avgHumidity = NaN, avgWindSpeed = NaN\<rparr>"
  by (simp add: calculateDailySummary_def find_window_def india_window mumbai_reading_def
      stable_reading_def Math_max_def Math_min_def getMostFrequent_def pop_def
      sort_by_occurrences_def array_length_def)

lemma foldl_max2_Fin: "foldl max2 (Fin a) (map Fin xs) = Fin (fold max xs a)"
  by (induction xs arbitrary: a) (simp_all add: max_def)

lemma foldl_min2_Fin: "foldl min2 (Fin a) (map Fin xs) = Fin (fold min xs a)"
  by (induction xs arbitrary: a) (simp_all add: min_def)

lemma Math_max_Fin: "ts \<noteq> [] \<Longrightarrow> Math_max (map Fin ts) = Fin (Max (set ts))"
proof (cases ts)
  case Nil
  then show "ts \<noteq> [] \<Longrightarrow> ?thesis" by simp
next
  case (Cons a list)
  have "Math_max (map Fin (a # list)) = Fin (fold max list a)"
    by (simp add: Math_max_def foldl_max2_Fin)
  also have "fold max list a = Max (set (a # list))"
    by (rule Max.set_eq_fold [symmetric])
  finally show ?thesis by (simp only: Cons)
qed

lemma Math_min_Fin: "ts \<noteq> [] \<Longrightarrow> Math_min (map Fin ts) = Fin (Min (set ts))"
proof (cases ts)
  case Nil
  then show "ts \<noteq> [] \<Longrightarrow> ?thesis" by simp
next
  case (Cons a list)
  have "Math_min (map Fin (a # list)) = Fin (fold min list a)"
    by (simp add: Math_min_def foldl_min2_Fin)
  also have "fold min list a = Min (set (a # list))"
    by (rule Min.set_eq_fold [symmetric])
  finally show ?thesis by (simp only: Cons)
qed

lemma rnd_small:
  assumes "\<bar>x\<bar> \<le> 2000000"
  shows "\<bar>rnd x - x\<bar> \<le> 1 / 4000000000"
proof (cases "x = 0")
  case True
  then show ?thesis by (simp add: rnd_def)
next
  case False
  have "\<bar>x\<bar> / 2 ^ 53 \<le> 2000000 / 2 ^ 53"
    using assms by (simp add: divide_right_mono)
  also have "\<dots> \<le> 1 / 4000000000" by simp
  finally have a: "\<bar>x\<bar> / 2 ^ 53 \<le> 1 / 4000000000" .
  have "(2::real) ^ 32 \<le> 2 ^ 1075" by (rule power_increasing) simp_all
  then have "1 / (2::real) ^ 1075 \<le> 1 / 2 ^ 32"
    by (intro divide_left_mono) simp_all
  also have "\<dots> \<le> 1 / 4000000000" by simp
  finally have b: "1 / (2::real) ^ 1075 \<le> 1 / 4000000000" .
  from rnd_error [OF False] a b show ?thesis
    by (simp only: max.bounded_iff le_max_iff_disj) linarith
qed

lemma fl_small:
  assumes "\<bar>x\<bar> \<le> 2000000"
  shows "fl x = Fin (rnd x)"
proof -
  from rnd_small [OF assms] assms have small: "\<bar>rnd x\<bar> \<le> 2000001" by linarith
  have "(2::real) ^ 21 \<le> 2 ^ 1024" by (rule power_increasing) simp_all
  then have big: "(2000002::real) \<le> 2 ^ 1024" by simp
  from small big have "\<not> 2 ^ 1024 \<le> rnd x" "\<not> rnd x \<le> - (2 ^ 1024)"
    by linarith+
  then show ?thesis by (simp only: fl_def Let_def if_False)
qed

lemma rounded_sum:
  assumes "\<forall>t\<in>set ts. \<bar>t\<bar> \<le> 1000"
    and "\<bar>a - A\<bar> \<le> real k / 4000000000"
    and "\<bar>A\<bar> \<le> 1000 * real k"
    and "k + length ts \<le> 1000"
  shows "\<exists>\<sigma>. foldl num_add (Fin a) (map Fin ts) = Fin \<sigma>
           \<and> \<bar>\<sigma> - (A + sum_list ts)\<bar> \<le> real (k + length ts) / 4000000000"
  using assms
proof (induction ts arbitrary: a A k)
  case Nil
  then show ?case by simp
next
  case (Cons t ts)
  from Cons.prems(1) have t: "\<bar>t\<bar> \<le> 1000" and rest: "\<forall>t\<in>set ts. \<bar>t\<bar> \<le> 1000"
    by simp_all
  from Cons.prems(4) have k: "real k \<le> 999" by simp
  from Cons.prems(2) k have "\<bar>a - A\<bar> \<le> 1" by simp
  with Cons.prems(3) k t have x: "\<bar>a + t\<bar> \<le> 2000000" by linarith
  note r = rnd_small [OF x]
  have step: "num_add (Fin a) (Fin t) = Fin (rnd (a + t))"
    by (simp add: fl_small [OF x])
  have "real (Suc k) / 4000000000 = real k / 4000000000 + 1 / 4000000000"
    by (simp add: add_divide_distrib)
  with r Cons.prems(2) have e: "\<bar>rnd (a + t) - (A + t)\<bar> \<le> real (Suc k) / 4000000000"
    by linarith
  have "1000 * real (Suc k) = 1000 * real k + 1000" by simp
  with Cons.prems(3) t have b: "\<bar>A + t\<bar> \<le> 1000 * real (Suc k)"
    by linarith
  have l: "Suc k + length ts \<le> 1000"
    using Cons.prems(4) by simp
  from Cons.IH [OF rest e b l] obtain \<sigma>
    where "foldl num_add (Fin (rnd (a + t))) (map Fin ts) = Fin \<sigma>"
      and "\<bar>\<sigma> - (A + t + sum_list ts)\<bar> \<le> real (Suc k + length ts) / 4000000000"
    by blast
  moreover have "foldl num_add (Fin a) (map Fin (t # ts))
      = foldl num_add (Fin (rnd (a + t))) (map Fin ts)"
    by (simp add: fl_small [OF x])
  moreover have "A + t + sum_list ts = A + sum_list (t # ts)" by simp
  moreover have "Suc k + length ts = k + length (t # ts)" by simp
  ultimately show ?case by (intro exI [of _ \<sigma>]) (simp only:)
qed

lemma rounded_mean:
  assumes "\<forall>t\<in>set ts. \<bar>t\<bar> \<le> 1000" and "ts \<noteq> []" and "length ts \<le> 1000"
  shows "\<exists>m. num_div (foldl num_add (Fin 0) (map Fin ts)) (Fin (real (length ts))) = Fin m
           \<and> \<bar>m - sum_list ts / real (length ts)\<bar> \<le> 1 / 1000000000"
proof -
  let ?n = "real (length ts)"
  have n: "1 \<le> ?n" using assms(2) by (cases ts) simp_all
  from rounded_sum [of ts 0 0 0] assms(1,3) obtain \<sigma>
    where sum: "foldl num_add (Fin 0) (map Fin ts) = Fin \<sigma>"
      and err: "\<bar>\<sigma> - sum_list ts\<bar> \<le> ?n / 4000000000"
    by auto
  have "\<bar>sum_list ts\<bar> \<le> 1000 * ?n"
    using assms(1)
  proof (induction ts)
    case Nil
    then show ?case by simp
  next
    case (Cons t ts)
    then have "\<bar>t\<bar> \<le> 1000" "\<bar>sum_list ts\<bar> \<le> 1000 * real (length ts)" by simp_all
    moreover have "1000 * real (length (t # ts)) = 1000 * real (length ts) + 1000" by simp
    moreover have "sum_list (t # ts) = t + sum_list ts" by simp
    ultimately show ?case by linarith
  qed
  with err have sb: "\<bar>\<sigma>\<bar> \<le> 1001 * ?n" using n by linarith
  have q: "\<bar>\<sigma> / ?n\<bar> \<le> 2000000"
  proof -
    have "\<bar>\<sigma> / ?n\<bar> = \<bar>\<sigma>\<bar> / ?n" using n by simp
    also have "\<dots> \<le> 1001"
    proof -
      from n have "0 < real (length ts)" by linarith
      then show ?thesis using sb by (simp only: pos_divide_le_eq)
    qed
    finally show ?thesis by simp
  qed
  have val: "num_div (Fin \<sigma>) (Fin ?n) = Fin (rnd (\<sigma> / ?n))"
    using assms(2) by (simp add: fl_small [OF q])
  have "\<bar>\<sigma> / ?n - sum_list ts / ?n\<bar> = \<bar>\<sigma> - sum_list ts\<bar> / ?n"
    using n by (simp add: diff_divide_distrib [symmetric])
  also have "\<dots> \<le> (?n / 4000000000) / ?n"
    using err by (rule divide_right_mono) simp
  also have "\<dots> = 1 / 4000000000"
    using assms(2) by simp
  finally have "\<bar>\<sigma> / ?n - sum_list ts / ?n\<bar> \<le> 1 / 4000000000" .
  with rnd_small [OF q] have "\<bar>rnd (\<sigma> / ?n) - sum_list ts / ?n\<bar> \<le> 1 / 1000000000"
    by linarith
  with val sum show ?thesis by simp
qed

lemma sum_list_lower: "\<forall>t\<in>set ts. c \<le> t \<Longrightarrow> real (length ts) * c \<le> sum_list ts"
  by (induction ts) (auto simp: algebra_simps)

lemma sum_list_upper: "\<forall>t\<in>set ts. t \<le> c \<Longrightarrow> sum_list ts \<le> real (length ts) * c"
  by (induction ts) (auto simp: algebra_simps)

lemma mean_between:
  fixes ts :: "real list"
  assumes "ts \<noteq> []"
  shows "Min (set ts) \<le> sum_list ts / real (length ts)"
    and "sum_list ts / real (length ts) \<le> Max (set ts)"
proof -
  have n: "0 < real (length ts)" using assms by simp
  have "real (length ts) * Min (set ts) \<le> sum_list ts"
    by (rule sum_list_lower) simp
  with n show "Min (set ts) \<le> sum_list ts / real (length ts)"
    by (simp add: field_simps)
  have "sum_list ts \<le> real (length ts) * Max (set ts)"
    by (rule sum_list_upper) simp
  with n show "sum_list ts / real (length ts) \<le> Max (set ts)"
    by (simp add: field_simps)
qed


lemma rounded_mean_of:
  assumes "map g data = map Fin vs" and "\<forall>v\<in>set vs. \<bar>v\<bar> \<le> 1000"
    and "data \<noteq> []" and "length data \<le> 1000"
  shows "\<exists>m. num_div (foldl (\<lambda>sum d. num_add sum (g d)) (Fin 0) data) (array_length data) = Fin m
           \<and> \<bar>m - sum_list vs / real (length vs)\<bar> \<le> 1 / 1000000000"
proof -
  have len: "length vs = length data"
    using assms(1) by (metis length_map)
  with assms(3,4) have vs: "vs \<noteq> []" "length vs \<le> 1000" by auto
  have "foldl (\<lambda>sum d. num_add sum (g d)) (Fin 0) data = foldl num_add (Fin 0) (map g data)"
    by (simp add: foldl_map)
  then have "num_div (foldl (\<lambda>sum d. num_add sum (g d)) (Fin 0) data) (array_length data)
      = num_div (foldl num_add (Fin 0) (map Fin vs)) (Fin (real (length vs)))"
    by (simp only: assms(1) array_length_def len)
  with rounded_mean [OF assms(2) vs] show ?thesis by (simp only:)
qed

lemma stable_temp:
  "ToNumber (toCelsius (Number (Fin (rnd (30316 / 100)))))
     = Fin (527941503192925 / 17592186044416)"
proof -
  have reading: "rnd (30316 / 100) = 5333247121225155 / 17592186044416"
    by (simp add: rnd_eval)
  show ?thesis
    by (simp add: toCelsius_def num_sub_def fl_def reading kelvin_offset_value rnd_eval)
qed

lemma replicate_19:
  "replicate 19 x = [x, x, x, x, x, x, x, x, x, x, x, x, x, x, x, x, x, x, x]"
  by (simp add: numeral_eq_Suc)

lemma sum_19:
  "foldl (\<lambda>a b. num_add a b) (Fin 0) (replicate 19 (Fin (527941503192925 / 17592186044416)))
     = Fin (1253861070083197 / 2199023255552)"
  by (simp add: replicate_19 fl_def rnd_eval)

lemma max_19:
  "Math_max (replicate 19 (Fin (527941503192925 / 17592186044416)))
     = Fin (527941503192925 / 17592186044416)"
  by (simp add: replicate_19 Math_max_def)

lemma min_19:
  "Math_min (replicate 19 (Fin (527941503192925 / 17592186044416)))
     = Fin (527941503192925 / 17592186044416)"
  by (simp add: replicate_19 Math_min_def)

lemma window_19:
  "find_window india_host ''Delhi'' 1700000000000 (replicate 19 stable_reading)
     = replicate 19 stable_reading"
  by (simp add: find_window_def india_window stable_reading_def)

text \<open>
  Claim C7, at the failing input.  The window holds nineteen stored readings of the same
  temperature, 303.16 K converted at ingestion to 30.010000000000048.  The maximum and
  the minimum are that value; the sum is rounded after each addition, and the quotient by
  19 is 30.01000000000005: \<open>avgTemp\<close> is above \<open>maxTemp\<close>, so \<open>avgTemp <= maxTemp\<close> is false
  (and \<open>avgTemp\<close> is not the arithmetic mean of the nineteen equal temperatures).
\<close>

theorem average_above_maximum:
  "(case calculateDailySummary india_host ''Delhi'' 1700000000000
           (Inr (replicate 19 stable_reading)) of
      Inl error \<Rightarrow> False
    | Inr s \<Rightarrow> maxTemp s = Fin (527941503192925 / 17592186044416)
             \<and> minTemp s = Fin (527941503192925 / 17592186044416)
             \<and> avgTemp s = Fin (8447064051086801 / 281474976710656)
             \<and> num_less (maxTemp s) (avgTemp s))"
proof -
  have temps: "d_temp stable_reading = Fin (527941503192925 / 17592186044416)"
    unfolding stable_reading_def stable_temp by simp
  show ?thesis
    by (simp add: calculateDailySummary_def window_19 temps sum_19 max_19 min_19
        array_length_def fl_def rnd_eval)
qed

text \<open>
  How far the averages can be off.  For every non-empty window of at most 1000 documents
  whose temperatures, humidities and wind speeds are finite and of magnitude at most 1000,
  \<open>maxTemp\<close> and \<open>minTemp\<close> are the greatest and the least temperature of the window, and
  \<open>avgTemp\<close>, \<open>avgHumidity\<close> and \<open>avgWindSpeed\<close> lie within \<open>10\<^sup>-\<^sup>9\<close> of the arithmetic
  means, so that \<open>avgTemp\<close> lies between \<open>minTemp - 10\<^sup>-\<^sup>9\<close> and \<open>maxTemp + 10\<^sup>-\<^sup>9\<close>.
\<close>

theorem summary_within_tolerance:
  assumes "find_window host city date documents = data"
    and "data \<noteq> []" and "length data \<le> 1000"
    and "map d_temp data = map Fin ts" and "list_all (\<lambda>t. \<bar>t\<bar> \<le> 1000) ts"
    and "map d_humidity data = map Fin hs" and "list_all (\<lambda>h. \<bar>h\<bar> \<le> 1000) hs"
    and "map d_wind_speed data = map Fin ws" and "list_all (\<lambda>w. \<bar>w\<bar> \<le> 1000) ws"
  shows "\<exists>s a h w. calculateDailySummary host city date (Inr documents) = Inr s
           \<and> maxTemp s = Fin (Max (set ts)) \<and> minTemp s = Fin (Min (set ts))
           \<and> Min (set ts) \<le> Max (set ts)
           \<and> avgTemp s = Fin a \<and> \<bar>a - sum_list ts / real (length ts)\<bar> \<le> 1 / 1000000000
           \<and> Min (set ts) - 1 / 1000000000 \<le> a \<and> a \<le> Max (set ts) + 1 / 1000000000
           \<and> avgHumidity s = Fin h \<and> \<bar>h - sum_list hs / real (length hs)\<bar> \<le> 1 / 1000000000
           \<and> avgWindSpeed s = Fin w \<and> \<bar>w - sum_list ws / real (length ws)\<bar> \<le> 1 / 1000000000"
proof -
  from assms(5,7,9)
  have bt: "\<forall>t\<in>set ts. \<bar>t\<bar> \<le> 1000" and bh: "\<forall>h\<in>set hs. \<bar>h\<bar> \<le> 1000"
    and bw: "\<forall>w\<in>set ws. \<bar>w\<bar> \<le> 1000"
    by (simp_all add: list_all_iff)
  have "length ts = length data"
    using assms(4) by (metis length_map)
  with assms(2) have ts: "ts \<noteq> []" by auto
  from rounded_mean_of [OF assms(4) bt assms(2,3)] obtain a
    where a: "num_div (foldl (\<lambda>sum d. num_add sum (d_temp d)) (Fin 0) data) (array_length data) = Fin a"
      and ea: "\<bar>a - sum_list ts / real (length ts)\<bar> \<le> 1 / 1000000000"
    by blast
  from rounded_mean_of [OF assms(6) bh assms(2,3)] obtain h
    where h: "num_div (foldl (\<lambda>sum d. num_add sum (d_humidity d)) (Fin 0) data) (array_length data) = Fin h"
      and eh: "\<bar>h - sum_list hs / real (length hs)\<bar> \<le> 1 / 1000000000"
    by blast
  from rounded_mean_of [OF assms(8) bw assms(2,3)] obtain w
    where w: "num_div (foldl (\<lambda>sum d. num_add sum (d_wind_speed d)) (Fin 0) data) (array_length data) = Fin w"
      and ew: "\<bar>w - sum_list ws / real (length ws)\<bar> \<le> 1 / 1000000000"
    by blast
  have temps: "num_div (foldl (\<lambda>a b. num_add a b) (Fin 0) (map d_temp data))
      (array_length (map d_temp data)) = Fin a"
    using a by (simp add: foldl_map array_length_def)
  note between = mean_between [OF ts]
  from between ea
  have lo: "Min (set ts) - 1 / 1000000000 \<le> a" and hi: "a \<le> Max (set ts) + 1 / 1000000000"
    by linarith+
  from between have order: "Min (set ts) \<le> Max (set ts)" by linarith
  let ?s = "\<lparr>s_city = city, s_date = startOfDay host date, avgTemp = Fin a,
            maxTemp = Fin (Max (set ts)), minTemp = Fin (Min (set ts)),
            dominantWeather = getMostFrequent (map d_main data),
            avgHumidity = Fin h, avgWindSpeed = Fin w\<rparr>"
  have "calculateDailySummary host city date (Inr documents) = Inr ?s"
    by (simp add: calculateDailySummary_def assms(1) Let_def temps h w
        Math_max_Fin [OF ts, folded assms(4)] Math_min_Fin [OF ts, folded assms(4)])
  with ea eh ew lo hi order show ?thesis
    by (intro exI [of _ ?s] exI [of _ a] exI [of _ h] exI [of _ w]) simp
qed

theorem summary_within_tolerance_witness:
  "find_window india_host ''Mumbai'' 1700000000000 [mumbai_reading, stable_reading, mumbai_reading]
     = [mumbai_reading, mumbai_reading]
   \<and> [mumbai_reading, mumbai_reading] \<noteq> []
   \<and> length [mumbai_reading, mumbai_reading] \<le> 1000
   \<and> map d_temp [mumbai_reading, mumbai_reading] = map Fin [29, 29]
   \<and> list_all (\<lambda>t. \<bar>t\<bar> \<le> 1000) [29, 29 :: real]
   \<and> map d_humidity [mumbai_reading, mumbai_reading] = map Fin [80, 80]
   \<and> list_all (\<lambda>h. \<bar>h\<bar> \<le> 1000) [80, 80 :: real]
   \<and> map d_wind_speed [mumbai_reading, mumbai_reading] = map Fin [5, 5]
   \<and> list_all (\<lambda>w. \<bar>w\<bar> \<le> 1000) [5, 5 :: real]
   \<and> (\<exists>s a h w.
         calculateDailySummary india_host ''Mumbai'' 1700000000000
           (Inr [mumbai_reading, stable_reading, mumbai_reading]) = Inr s
         \<and> maxTemp s = Fin 29 \<and> minTemp s = Fin 29
         \<and> avgTemp s = Fin a \<and> \<bar>a - 29\<bar> \<le> 1 / 1000000000
         \<and> avgHumidity s = Fin h \<and> \<bar>h - 80\<bar> \<le> 1 / 1000000000
         \<and> avgWindSpeed s = Fin w \<and> \<bar>w - 5\<bar> \<le> 1 / 1000000000)"
proof -
  have window: "find_window india_host ''Mumbai'' 1700000000000
      [mumbai_reading, stable_reading, mumbai_reading] = [mumbai_reading, mumbai_reading]"
    by (simp add: find_window_def india_window mumbai_reading_def stable_reading_def)
  have ne: "[mumbai_reading, mumbai_reading] \<noteq> []" by simp
  have len: "length [mumbai_reading, mumbai_reading] \<le> 1000" by simp
  have t: "map d_temp [mumbai_reading, mumbai_reading] = map Fin [29, 29]"
    by (simp add: mumbai_reading_def)
  have h: "map d_humidity [mumbai_reading, mumbai_reading] = map Fin [80, 80]"
    by (simp add: mumbai_reading_def)
  have w: "map d_wind_speed [mumbai_reading, mumbai_reading] = map Fin [5, 5]"
    by (simp add: mumbai_reading_def)
  have bt: "list_all (\<lambda>t. \<bar>t\<bar> \<le> 1000) [29, 29 :: real]" by simp
  have bh: "list_all (\<lambda>h. \<bar>h\<bar> \<le> 1000) [80, 80 :: real]" by simp
  have bw: "list_all (\<lambda>w. \<bar>w\<bar> \<le> 1000) [5, 5 :: real]" by simp
  from summary_within_tolerance [OF window ne len t bt h bh w bw]
  have "\<exists>s a h w.
         calculateDailySummary india_host ''Mumbai'' 1700000000000
           (Inr [mumbai_reading, stable_reading, mumbai_reading]) = Inr s
         \<and> maxTemp s = Fin 29 \<and> minTemp s = Fin 29
         \<and> avgTemp s = Fin a \<and> \<bar>a - 29\<bar> \<le> 1 / 1000000000
         \<and> avgHumidity s = Fin h \<and> \<bar>h - 80\<bar> \<le> 1 / 1000000000
         \<and> avgWindSpeed s = Fin w \<and> \<bar>w - 5\<bar> \<le> 1 / 1000000000"
    by (simp, blast)
  with window ne len t bt h bh w bw show ?thesis
    by (intro conjI)
qed

text \<open>
  The same effect on the shortest window: three stored readings of 0.1 have the average
  0.10000000000000002.
\<close>

lemma average_of_three_tenths:
  "num_div (foldl (\<lambda>a b. num_add a b) (Fin 0) [Fin (rnd (1 / 10)), Fin (rnd (1 / 10)), Fin (rnd (1 / 10))])
     (array_length [Fin (rnd (1 / 10)), Fin (rnd (1 / 10)), Fin (rnd (1 / 10))])
     = Fin (7205759403792795 / 72057594037927936)
   \<and> Math_max [Fin (rnd (1 / 10)), Fin (rnd (1 / 10)), Fin (rnd (1 / 10))]
     = Fin (7205759403792794 / 72057594037927936)"
  by (simp add: array_length_def Math_max_def fl_def rnd_eval)

end
